theory Spec2Isabelle
  imports Complex_Main "HOL-Library.Word"
begin

section \<open>Data model of \<^verbatim>\<open>viewer.c\<close>\<close>

text \<open>
  The model follows \<^verbatim>\<open>src/viewer.c\<close> of swayimg. The static \<^verbatim>\<open>struct viewer ctx\<close> is the
  record \<open>viewer\<close>; everything the file reaches through its collaborators (window size, the
  fetcher's current image, timers, the overlay, the diagnostic channel, redraw requests) is
  a field of the record \<open>world\<close>, and every function of the file is a function from world
  to world.

  Numbers: \<^verbatim>\<open>ssize_t\<close> is \<open>int\<close> and \<^verbatim>\<open>size_t\<close> is \<open>nat\<close> (the coordinates and sizes handled
  here are far from \<open>2^63\<close>; where the source relies on unsigned wrap-around, in
  \<^verbatim>\<open>next_frame\<close>, it is written out). \<^verbatim>\<open>float\<close> and \<^verbatim>\<open>double\<close> are \<open>real\<close>: the rounding of
  floating-point operations is not modelled. The conversion of a \<^verbatim>\<open>double\<close> to \<^verbatim>\<open>ssize_t\<close>
  truncates towards zero (\<open>c_trunc\<close>), and so does the division of signed integers
  (\<open>c_div\<close>).
\<close>

definition c_trunc :: "real \<Rightarrow> int" where
  "c_trunc r = (if 0 \<le> r then \<lfloor>r\<rfloor> else \<lceil>r\<rceil>)"

definition c_div :: "int \<Rightarrow> int \<Rightarrow> int" where
  "c_div a b = sgn a * sgn b * (\<bar>a\<bar> div \<bar>b\<bar>)"

subsection \<open>Enumerations and name tables\<close>

datatype fixed_scale =
    scale_fit_optimal
  | scale_fit_window
  | scale_fit_width
  | scale_fit_height
  | scale_fill_window
  | scale_real_size

definition scale_names :: "string list" where
  "scale_names = [''optimal'', ''fit'', ''width'', ''height'', ''fill'', ''real'']"

text \<open>The C enumeration is an integer: its value, and the cast back from an index.\<close>

fun fixed_scale_value :: "fixed_scale \<Rightarrow> nat" where
  "fixed_scale_value scale_fit_optimal = 0"
| "fixed_scale_value scale_fit_window = 1"
| "fixed_scale_value scale_fit_width = 2"
| "fixed_scale_value scale_fit_height = 3"
| "fixed_scale_value scale_fill_window = 4"
| "fixed_scale_value scale_real_size = 5"

definition fixed_scale_of :: "nat \<Rightarrow> fixed_scale" where
  "fixed_scale_of n =
     (if n = 0 then scale_fit_optimal
      else if n = 1 then scale_fit_window
      else if n = 2 then scale_fit_width
      else if n = 3 then scale_fit_height
      else if n = 4 then scale_fill_window
      else scale_real_size)"

datatype position =
    position_top
  | position_center
  | position_bottom
  | position_left
  | position_right
  | position_top_left
  | position_top_right
  | position_bottom_left
  | position_bottom_right

subsection \<open>Images, as the fetcher hands them out\<close>

record pixmap =
  width :: nat
  height :: nat

record frame =
  pm :: pixmap
  duration :: nat

record image =
  frames :: "frame list"
  num_frames :: nat
  index :: nat
  name :: string

subsection \<open>The viewer context\<close>

record viewer =
  img_x :: int
  img_y :: int
  img_w :: int
  img_h :: int
  frame :: nat
  image_bkg :: "32 word"
  window_bkg :: "32 word"
  fixed :: bool
  scale_init :: fixed_scale
  keep_zoom :: bool
  position :: position
  scale :: real
  animation_enable :: bool
  animation_fd :: int
  slideshow_enable :: bool
  slideshow_fd :: int
  slideshow_time :: nat

subsection \<open>The collaborators' state\<close>

record timespec =
  tv_sec :: nat
  tv_nsec :: nat

record itimerspec =
  it_interval :: timespec
  it_value :: timespec

definition ts_zero :: itimerspec where
  "ts_zero = \<lparr>it_interval = \<lparr>tv_sec = 0, tv_nsec = 0\<rparr>, it_value = \<lparr>tv_sec = 0, tv_nsec = 0\<rparr>\<rparr>"

datatype info_field = info_scale | info_status | info_frame | info_image_size | info_index

text \<open>
  A \<^verbatim>\<open>printf\<close>-style call is recorded as its format string with its arguments; the
  formatting itself belongs to the C library.
\<close>

datatype fmt_arg = ArgReal real | ArgNat nat | ArgStr string

datatype info_call = InfoUpdate info_field string "fmt_arg list" | InfoReset image

record 'l world =
  ctx :: viewer
  ui_width :: nat
  ui_height :: nat
  current :: image
  imglist :: 'l
  timerfd :: "int \<rightharpoonup> itimerspec"
  stderr_log :: "(string \<times> fmt_arg list) list"
  info_log :: "info_call list"
  redraws :: nat
  title :: string
  content_animated :: bool

text \<open>
  Modelled from the spec: the outward calls to the collaborators (\<^verbatim>\<open>app_redraw\<close>,
  \<^verbatim>\<open>info_update\<close>, \<^verbatim>\<open>fprintf(stderr, ...)\<close>; none of them is in \<^verbatim>\<open>viewer.c\<close>) are side
  effects outside the viewer context. The world records them: a redraw request is counted,
  an overlay update and a diagnostic are appended to their logs.
\<close>

definition app_redraw :: "'l world \<Rightarrow> 'l world" where
  "app_redraw w = w\<lparr>redraws := Suc (redraws w)\<rparr>"

definition info_update :: "info_field \<Rightarrow> string \<Rightarrow> fmt_arg list \<Rightarrow> 'l world \<Rightarrow> 'l world" where
  "info_update f fmt args w = w\<lparr>info_log := info_log w @ [InfoUpdate f fmt args]\<rparr>"

definition fprintf_stderr :: "string \<Rightarrow> fmt_arg list \<Rightarrow> 'l world \<Rightarrow> 'l world" where
  "fprintf_stderr fmt args w = w\<lparr>stderr_log := stderr_log w @ [(fmt, args)]\<rparr>"

text \<open>
  Modelled from the spec: \<^verbatim>\<open>timerfd_settime\<close> (the system's, not in \<^verbatim>\<open>viewer.c\<close>) sets the
  timer behind a descriptor; on a descriptor that is not an open timer (\<open>-1\<close> after a
  failed \<^verbatim>\<open>timerfd_create\<close>) it fails and changes nothing. A timer is armed when its
  \<^verbatim>\<open>it_value\<close> is nonzero, and disarmed by a zero-length interval.
\<close>

definition timerfd_settime :: "int \<Rightarrow> itimerspec \<Rightarrow> 'l world \<Rightarrow> 'l world" where
  "timerfd_settime fd ts w =
     (case timerfd w fd of
        None \<Rightarrow> w
      | Some _ \<Rightarrow> w\<lparr>timerfd := (timerfd w)(fd \<mapsto> ts)\<rparr>)"

definition armed :: "'l world \<Rightarrow> int \<Rightarrow> bool" where
  "armed w fd =
     (case timerfd w fd of
        None \<Rightarrow> False
      | Some ts \<Rightarrow> \<not> (tv_sec (it_value ts) = 0 \<and> tv_nsec (it_value ts) = 0))"

text \<open>The pixmap of the current frame: \<^verbatim>\<open>&fetcher_current()->frames[ctx.frame].pm\<close>.\<close>

definition current_pm :: "'l world \<Rightarrow> pixmap" where
  "current_pm w = pm (frames (current w) ! frame (ctx w))"

section \<open>Position fixup\<close>

text \<open>
  \<^verbatim>\<open>fixup_position\<close> in the order of its statements: the two \<^verbatim>\<open>switch\<close> statements over
  \<^verbatim>\<open>ctx.position\<close>, the four tests under \<^verbatim>\<open>if (ctx.fixed)\<close>, and the four final tests.
  \<open>wnd_width\<close>, \<open>wnd_height\<close>, \<open>img_width\<close> and \<open>img_height\<close> are the four constants
  computed at the top of the C function.
\<close>

definition switch_x :: "int \<Rightarrow> int \<Rightarrow> viewer \<Rightarrow> viewer" where
  "switch_x wnd_width img_width c =
     (case position c of
        position_top \<Rightarrow> c\<lparr>img_x := c_div wnd_width 2 - c_div img_width 2\<rparr>
      | position_center \<Rightarrow> c\<lparr>img_x := c_div wnd_width 2 - c_div img_width 2\<rparr>
      | position_bottom \<Rightarrow> c\<lparr>img_x := c_div wnd_width 2 - c_div img_width 2\<rparr>
      | position_left \<Rightarrow> c\<lparr>img_x := 0\<rparr>
      | position_right \<Rightarrow> c\<lparr>img_x := wnd_width - img_width\<rparr>
      | position_top_left \<Rightarrow> c\<lparr>img_x := 0\<rparr>
      | position_top_right \<Rightarrow> c\<lparr>img_x := wnd_width - img_width\<rparr>
      | position_bottom_left \<Rightarrow> c\<lparr>img_x := 0\<rparr>
      | position_bottom_right \<Rightarrow> c\<lparr>img_x := wnd_width - img_width\<rparr>)"

definition switch_y :: "int \<Rightarrow> int \<Rightarrow> viewer \<Rightarrow> viewer" where
  "switch_y wnd_height img_height c =
     (case position c of
        position_top \<Rightarrow> c\<lparr>img_y := 0\<rparr>
      | position_center \<Rightarrow> c\<lparr>img_y := c_div wnd_height 2 - c_div img_height 2\<rparr>
      | position_bottom \<Rightarrow> c\<lparr>img_y := wnd_height - img_height\<rparr>
      | position_left \<Rightarrow> c\<lparr>img_y := c_div wnd_height 2 - c_div img_height 2\<rparr>
      | position_right \<Rightarrow> c\<lparr>img_y := c_div wnd_height 2 - c_div img_height 2\<rparr>
      | position_top_left \<Rightarrow> c\<lparr>img_y := 0\<rparr>
      | position_top_right \<Rightarrow> c\<lparr>img_y := 0\<rparr>
      | position_bottom_left \<Rightarrow> c\<lparr>img_y := wnd_height - img_height\<rparr>
      | position_bottom_right \<Rightarrow> c\<lparr>img_y := wnd_height - img_height\<rparr>)"

text \<open>The body of \<^verbatim>\<open>if (ctx.fixed)\<close>: bind to window border.\<close>

definition bind_border :: "int \<Rightarrow> int \<Rightarrow> int \<Rightarrow> int \<Rightarrow> viewer \<Rightarrow> viewer" where
  "bind_border wnd_width wnd_height img_width img_height c0 =
     (let c1 = (if img_x c0 > 0 \<and> img_x c0 + img_width > wnd_width
                then c0\<lparr>img_x := 0\<rparr> else c0);
          c2 = (if img_y c1 > 0 \<and> img_y c1 + img_height > wnd_height
                then c1\<lparr>img_y := 0\<rparr> else c1);
          c3 = (if img_x c2 < 0 \<and> img_x c2 + img_width < wnd_width
                then c2\<lparr>img_x := wnd_width - img_width\<rparr> else c2)
      in (if img_y c3 < 0 \<and> img_y c3 + img_height < wnd_height
          then c3\<lparr>img_y := wnd_height - img_height\<rparr> else c3))"

text \<open>The last four tests: don't let canvas to be far out of window.\<close>

definition keep_near :: "int \<Rightarrow> int \<Rightarrow> int \<Rightarrow> int \<Rightarrow> viewer \<Rightarrow> viewer" where
  "keep_near wnd_width wnd_height img_width img_height c0 =
     (let c1 = (if img_x c0 + img_width < 0 then c0\<lparr>img_x := - img_width\<rparr> else c0);
          c2 = (if img_x c1 > wnd_width then c1\<lparr>img_x := wnd_width\<rparr> else c1);
          c3 = (if img_y c2 + img_height < 0 then c2\<lparr>img_y := - img_height\<rparr> else c2)
      in (if img_y c3 > wnd_height then c3\<lparr>img_y := wnd_height\<rparr> else c3))"

definition fixup_ctx :: "bool \<Rightarrow> int \<Rightarrow> int \<Rightarrow> int \<Rightarrow> int \<Rightarrow> viewer \<Rightarrow> viewer" where
  "fixup_ctx force wnd_width wnd_height img_width img_height c0 =
     (let c1 = (if force \<or> (fixed c0 \<and> img_width \<le> wnd_width)
                then switch_x wnd_width img_width c0 else c0);
          c2 = (if force \<or> (fixed c1 \<and> img_height \<le> wnd_height)
                then switch_y wnd_height img_height c1 else c1);
          c3 = (if fixed c2
                then bind_border wnd_width wnd_height img_width img_height c2 else c2)
      in keep_near wnd_width wnd_height img_width img_height c3)"

definition fixup_position :: "bool \<Rightarrow> 'l world \<Rightarrow> 'l world" where
  "fixup_position force w =
     (let wnd_width = int (ui_width w);
          wnd_height = int (ui_height w);
          img_width = c_trunc (scale (ctx w) * real (width (current_pm w)));
          img_height = c_trunc (scale (ctx w) * real (height (current_pm w)))
      in w\<lparr>ctx := fixup_ctx force wnd_width wnd_height img_width img_height (ctx w)\<rparr>)"

section \<open>Helpers that live outside \<^verbatim>\<open>viewer.c\<close>\<close>

text \<open>
  Modelled from the spec: \<^verbatim>\<open>str_index\<close> (string utilities, not in \<^verbatim>\<open>viewer.c\<close>) looks a
  name up in a table of names: the parameter is a scale-policy name when it is one of the
  six names, and unrecognized otherwise. The result is the index of the name, or \<open>-1\<close>.
\<close>

fun str_index :: "string list \<Rightarrow> string \<Rightarrow> int" where
  "str_index [] v = - 1"
| "str_index (n # ns) v =
     (if n = v then 0
      else (let r = str_index ns v in if r < 0 then - 1 else r + 1))"

text \<open>
  \<^verbatim>\<open>str_to_num\<close> is not in \<^verbatim>\<open>viewer.c\<close> either. The functions that call it take it as the
  parameter \<open>str_to_num\<close>, of type \<open>string \<Rightarrow> int option\<close> (\<open>None\<close> when the C function
  returns false), and the theorems hold for every such function.
\<close>

text \<open>
  Modelled from the spec: \<^verbatim>\<open>str_to_num\<close> (string utilities, not in \<^verbatim>\<open>viewer.c\<close>) reads a
  signed integer. \<open>digits_val\<close> reads a sequence of decimal digits; it is the digit loop of
  \<open>str_to_num_dec\<close> below.
\<close>

fun digits_val :: "nat \<Rightarrow> string \<Rightarrow> nat option" where
  "digits_val acc [] = Some acc"
| "digits_val acc (c # cs) =
     (let d = (of_char c :: nat)
      in if 48 \<le> d \<and> d \<le> 57 then digits_val (10 * acc + (d - 48)) cs else None)"

text \<open>
  Modelled from the spec: \<^verbatim>\<open>str_to_num\<close> (string utilities, not in \<^verbatim>\<open>viewer.c\<close>) on
  decimal input: a signed integer is an optional sign followed by decimal digits. It is
  one instance of the parameter \<open>str_to_num\<close>, used to run the model on concrete parameter
  strings.
\<close>

definition str_to_num_dec :: "string \<Rightarrow> int option" where
  "str_to_num_dec s =
     (case s of
        [] \<Rightarrow> None
      | c # cs \<Rightarrow>
          (if c = CHR ''-'' then (if cs = [] then None
                                  else map_option (\<lambda>n. - int n) (digits_val 0 cs))
           else if c = CHR ''+'' then (if cs = [] then None
                                       else map_option int (digits_val 0 cs))
           else map_option int (digits_val 0 s)))"

text \<open>The tail \<^verbatim>\<open>\"%s\"\n\<close> of the three diagnostic format strings.\<close>

definition quoted_arg :: string where
  "quoted_arg = [CHR 0x22] @ ''%s'' @ [CHR 0x22, CHR 0x0A]"

section \<open>Moving, scaling and zooming\<close>

text \<open>
  The block \<^verbatim>\<open>if (params) { ... }\<close> of \<^verbatim>\<open>move_image\<close>: the step in percent, which starts
  as 10, and the world after the diagnostic, if any.
\<close>

definition move_step :: "(string \<Rightarrow> int option) \<Rightarrow> string option \<Rightarrow> 'l world \<Rightarrow> int \<times> 'l world" where
  "move_step str_to_num params w =
     (case params of
        None \<Rightarrow> (10, w)
      | Some p \<Rightarrow>
          (case str_to_num p of
             None \<Rightarrow> (10, fprintf_stderr (''Invalid move step: '' @ quoted_arg) [ArgStr p] w)
           | Some val \<Rightarrow>
               if val > 0 \<and> val \<le> 1000 then (val, w)
               else (10, fprintf_stderr (''Invalid move step: '' @ quoted_arg) [ArgStr p] w)))"

definition move_image ::
  "(string \<Rightarrow> int option) \<Rightarrow> bool \<Rightarrow> bool \<Rightarrow> string option \<Rightarrow> 'l world \<Rightarrow> 'l world" where
  "move_image str_to_num horizontal positive params w =
     (let old_x = img_x (ctx w);
          old_y = img_y (ctx w);
          (step0, w1) = move_step str_to_num params w;
          step = (if \<not> positive then - step0 else step0);
          w2 = (if horizontal
                then w1\<lparr>ctx := (ctx w1)\<lparr>img_x := img_x (ctx w1) + (int (ui_width w1) div 100) * step\<rparr>\<rparr>
                else w1\<lparr>ctx := (ctx w1)\<lparr>img_y := img_y (ctx w1) + (int (ui_height w1) div 100) * step\<rparr>\<rparr>);
          w3 = fixup_position False w2
      in if img_x (ctx w3) \<noteq> old_x \<or> img_y (ctx w3) \<noteq> old_y then app_redraw w3 else w3)"

definition MIN_SCALE :: real where
  "MIN_SCALE = 10"

definition MAX_SCALE :: real where
  "MAX_SCALE = 100"

definition set_scale :: "fixed_scale \<Rightarrow> 'l world \<Rightarrow> 'l world" where
  "set_scale sc w =
     (let pm = current_pm w;
          wnd_width = ui_width w;
          wnd_height = ui_height w;
          scale_w = 1 / (real (width pm) / real wnd_width);
          scale_h = 1 / (real (height pm) / real wnd_height);
          c = ctx w;
          c' = (case sc of
                  scale_fit_optimal \<Rightarrow>
                    (let c1 = c\<lparr>scale := min scale_w scale_h\<rparr>
                     in if scale c1 > 1 then c1\<lparr>scale := 1\<rparr> else c1)
                | scale_fit_window \<Rightarrow> c\<lparr>scale := min scale_w scale_h\<rparr>
                | scale_fit_width \<Rightarrow> c\<lparr>scale := scale_w\<rparr>
                | scale_fit_height \<Rightarrow> c\<lparr>scale := scale_h\<rparr>
                | scale_fill_window \<Rightarrow> c\<lparr>scale := max scale_w scale_h\<rparr>
                | scale_real_size \<Rightarrow> c\<lparr>scale := 1\<rparr>);
          w1 = fixup_position True (w\<lparr>ctx := c'\<rparr>)
      in info_update info_scale ''%.0f%%'' [ArgReal (scale (ctx w1) * 100)] w1)"

definition scale_image :: "string option \<Rightarrow> 'l world \<Rightarrow> 'l world" where
  "scale_image params w =
     (let apply = (\<lambda>w1.
            app_redraw
              (set_scale (scale_init (ctx w1))
                 (info_update info_status ''Scale %s''
                    [ArgStr (scale_names ! fixed_scale_value (scale_init (ctx w1)))] w1)));
          toggle =
            (let v = fixed_scale_value (scale_init (ctx w)) + 1;
                 v' = (if v \<ge> length scale_names then 0 else v)
             in apply (w\<lparr>ctx := (ctx w)\<lparr>scale_init := fixed_scale_of v'\<rparr>\<rparr>))
      in case params of
           None \<Rightarrow> toggle
         | Some p \<Rightarrow>
             if p \<noteq> [] then
               (let fs = str_index scale_names p
                in if fs \<ge> 0
                   then apply (w\<lparr>ctx := (ctx w)\<lparr>scale_init := fixed_scale_of (nat fs)\<rparr>\<rparr>)
                   else fprintf_stderr (''Invalid scale operation: '' @ quoted_arg) [ArgStr p] w)
             else toggle)"

text \<open>
  The block \<^verbatim>\<open>// zoom in %\<close> of \<^verbatim>\<open>zoom_image\<close>, up to and including \<^verbatim>\<open>// restore center\<close>;
  the call of \<^verbatim>\<open>fixup_position(false)\<close> that ends the block is made in \<open>zoom_image\<close>.
\<close>

definition zoom_percent :: "int \<Rightarrow> 'l world \<Rightarrow> 'l world" where
  "zoom_percent percent w =
     (let c = ctx w;
          wnd_half_w = real (ui_width w) / 2;
          wnd_half_h = real (ui_height w) / 2;
          step = (scale c / 100) * real_of_int percent;
          center_x = wnd_half_w / scale c - real_of_int (img_x c) / scale c;
          center_y = wnd_half_h / scale c - real_of_int (img_y c) / scale c;
          c1 = (if percent > 0 then
                  (let c' = c\<lparr>scale := scale c + step\<rparr>
                   in if scale c' > MAX_SCALE then c'\<lparr>scale := MAX_SCALE\<rparr> else c')
                else
                  (let pm = current_pm w;
                       scale_w = MIN_SCALE / real (width pm);
                       scale_h = MIN_SCALE / real (height pm);
                       scale_min = max scale_w scale_h;
                       c' = c\<lparr>scale := scale c + step\<rparr>
                   in if scale c' < scale_min then c'\<lparr>scale := scale_min\<rparr> else c'));
          c2 = c1\<lparr>img_x := c_trunc (wnd_half_w - center_x * scale c1)\<rparr>;
          c3 = c2\<lparr>img_y := c_trunc (wnd_half_h - center_y * scale c2)\<rparr>
      in w\<lparr>ctx := c3\<rparr>)"

definition zoom_image :: "(string \<Rightarrow> int option) \<Rightarrow> string option \<Rightarrow> 'l world \<Rightarrow> 'l world" where
  "zoom_image str_to_num params w =
     (case params of
        None \<Rightarrow> w
      | Some p \<Rightarrow>
          if p = [] then w
          else
            (let fixed_scale = str_index scale_names p;
                 invalid = fprintf_stderr (''Invalid zoom operation: '' @ quoted_arg) [ArgStr p] w;
                 w1 = (if fixed_scale \<ge> 0 then set_scale (fixed_scale_of (nat fixed_scale)) w
                       else
                         (case str_to_num p of
                            None \<Rightarrow> invalid
                          | Some percent \<Rightarrow>
                              if percent \<noteq> 0 \<and> percent > - 1000 \<and> percent < 1000
                              then fixup_position False (zoom_percent percent w)
                              else invalid))
             in app_redraw
                  (info_update info_scale ''%.0f%%'' [ArgReal (scale (ctx w1) * 100)] w1)))"

text \<open>
  The same block with the roundings of its floating-point operations written out: \<open>rd\<close>
  rounds the exact result of an operation to a \<^verbatim>\<open>double\<close> and \<open>rf\<close> to a \<^verbatim>\<open>float\<close>. The
  conversions of the integers to \<^verbatim>\<open>double\<close> and the halving of the window size are exact.
  \<^verbatim>\<open>step\<close>, \<^verbatim>\<open>scale_w\<close> and \<^verbatim>\<open>scale_h\<close> are \<^verbatim>\<open>float\<close> variables; \<^verbatim>\<open>center_x\<close>, \<^verbatim>\<open>center_y\<close> and
  \<^verbatim>\<open>ctx.scale\<close> are \<^verbatim>\<open>double\<close>. \<open>zoom_percent\<close> is the instance in which nothing is rounded.
\<close>

definition zoom_percent_fl ::
  "(real \<Rightarrow> real) \<Rightarrow> (real \<Rightarrow> real) \<Rightarrow> int \<Rightarrow> 'l world \<Rightarrow> 'l world" where
  "zoom_percent_fl rd rf percent w =
     (let c = ctx w;
          wnd_half_w = real (ui_width w) / 2;
          wnd_half_h = real (ui_height w) / 2;
          step = rf (rd (rd (scale c / 100) * real_of_int percent));
          center_x = rd (rd (wnd_half_w / scale c) - rd (real_of_int (img_x c) / scale c));
          center_y = rd (rd (wnd_half_h / scale c) - rd (real_of_int (img_y c) / scale c));
          c1 = (if percent > 0 then
                  (let c' = c\<lparr>scale := rd (scale c + step)\<rparr>
                   in if scale c' > MAX_SCALE then c'\<lparr>scale := MAX_SCALE\<rparr> else c')
                else
                  (let pm = current_pm w;
                       scale_w = rf (MIN_SCALE / real (width pm));
                       scale_h = rf (MIN_SCALE / real (height pm));
                       scale_min = max scale_w scale_h;
                       c' = c\<lparr>scale := rd (scale c + step)\<rparr>
                   in if scale c' < scale_min then c'\<lparr>scale := scale_min\<rparr> else c'));
          c2 = c1\<lparr>img_x := c_trunc (rd (wnd_half_w - rd (center_x * scale c1)))\<rparr>;
          c3 = c2\<lparr>img_y := c_trunc (rd (wnd_half_h - rd (center_y * scale c2)))\<rparr>
      in w\<lparr>ctx := c3\<rparr>)"

text \<open>
  \<^verbatim>\<open>zoom_image\<close> with the rounded block in its percentage branch; the branch of the policy
  names is \<open>set_scale\<close> as above. \<open>zoom_image\<close> is the instance in which nothing is rounded.
\<close>

definition zoom_image_fl ::
  "(real \<Rightarrow> real) \<Rightarrow> (real \<Rightarrow> real) \<Rightarrow> (string \<Rightarrow> int option) \<Rightarrow> string option \<Rightarrow>
   'l world \<Rightarrow> 'l world" where
  "zoom_image_fl rd rf str_to_num params w =
     (case params of
        None \<Rightarrow> w
      | Some p \<Rightarrow>
          if p = [] then w
          else
            (let fixed_scale = str_index scale_names p;
                 invalid = fprintf_stderr (''Invalid zoom operation: '' @ quoted_arg) [ArgStr p] w;
                 w1 = (if fixed_scale \<ge> 0 then set_scale (fixed_scale_of (nat fixed_scale)) w
                       else
                         (case str_to_num p of
                            None \<Rightarrow> invalid
                          | Some percent \<Rightarrow>
                              if percent \<noteq> 0 \<and> percent > - 1000 \<and> percent < 1000
                              then fixup_position False (zoom_percent_fl rd rf percent w)
                              else invalid))
             in app_redraw
                  (info_update info_scale ''%.0f%%'' [ArgReal (rd (scale (ctx w1) * 100))] w1)))"

text \<open>
  The standard model of floating-point arithmetic: the rounded result of an operation is
  the exact result with a relative error of at most \<open>u\<close>. Rounding to nearest in IEEE
  \<^verbatim>\<open>double\<close> has \<open>u = 2^-53\<close> and in \<^verbatim>\<open>float\<close> \<open>u = 2^-24\<close>, as long as the operation neither
  overflows nor underflows.
\<close>

definition rounds_within :: "real \<Rightarrow> (real \<Rightarrow> real) \<Rightarrow> bool" where
  "rounds_within u r = (\<forall>x. \<bar>r x - x\<bar> \<le> u * \<bar>x\<bar>)"

text \<open>
  The rounding error that the five \<^verbatim>\<open>double\<close> operations between the old position \<open>x\<close> and
  the restored one can add up to, in window pixels: \<open>h\<close> is half the window size, \<open>s\<close> the
  scale before and \<open>s'\<close> the scale after the zoom.
\<close>

definition rounding_allowance :: "real \<Rightarrow> real \<Rightarrow> real \<Rightarrow> real \<Rightarrow> real \<Rightarrow> real" where
  "rounding_allowance u h x s s' = u * (h + 15 * ((h + \<bar>x\<bar>) / s) * s')"

section \<open>Timers\<close>

definition animation_ctl :: "bool \<Rightarrow> 'l world \<Rightarrow> 'l world" where
  "animation_ctl enable0 w =
     (let (enable, ts) =
            (if enable0 then
               (let img = current w;
                    duration = duration (frames img ! frame (ctx w));
                    enable = (num_frames img > 1 \<and> duration \<noteq> 0)
                in if enable
                   then (enable,
                         ts_zero\<lparr>it_value := \<lparr>tv_sec = duration div 1000,
                                               tv_nsec = (duration mod 1000) * 1000000\<rparr>\<rparr>)
                   else (enable, ts_zero))
             else (enable0, ts_zero));
          w1 = w\<lparr>ctx := (ctx w)\<lparr>animation_enable := enable\<rparr>\<rparr>
      in timerfd_settime (animation_fd (ctx w1)) ts w1)"

definition slideshow_ctl :: "bool \<Rightarrow> 'l world \<Rightarrow> 'l world" where
  "slideshow_ctl enable w =
     (let w1 = w\<lparr>ctx := (ctx w)\<lparr>slideshow_enable := enable\<rparr>\<rparr>;
          ts = (if enable
                then ts_zero\<lparr>it_value := \<lparr>tv_sec = slideshow_time (ctx w1), tv_nsec = 0\<rparr>\<rparr>
                else ts_zero)
      in timerfd_settime (slideshow_fd (ctx w1)) ts w1)"

section \<open>Frames\<close>

text \<open>
  \<^verbatim>\<open>next_frame\<close>: \<^verbatim>\<open>index\<close> is a \<^verbatim>\<open>size_t\<close>, so \<^verbatim>\<open>++index\<close> and \<^verbatim>\<open>num_frames - 1\<close> wrap
  around at \<open>2^64\<close>.
\<close>

definition next_frame :: "bool \<Rightarrow> 'l world \<Rightarrow> 'l world" where
  "next_frame forward w =
     (let index0 = frame (ctx w);
          img = current w;
          index1 = (if forward then
                      (let i = (index0 + 1) mod 2 ^ 64
                       in if i \<ge> num_frames img then 0 else i)
                    else
                      (if index0 = 0 then (num_frames img + 2 ^ 64 - 1) mod 2 ^ 64
                       else index0 - 1))
      in if index1 \<noteq> frame (ctx w) then
           (let w1 = w\<lparr>ctx := (ctx w)\<lparr>frame := index1\<rparr>\<rparr>;
                w2 = info_update info_frame ''%zu of %zu''
                       [ArgNat (frame (ctx w1) + 1), ArgNat (num_frames img)] w1;
                w3 = info_update info_image_size ''%zux%zu''
                       [ArgNat (width (pm (frames img ! frame (ctx w2)))),
                        ArgNat (height (pm (frames img ! frame (ctx w2))))] w2
            in app_redraw w3)
         else w)"

definition on_animation_timer :: "'l world \<Rightarrow> 'l world" where
  "on_animation_timer w = animation_ctl True (next_frame True w)"

section \<open>Navigation\<close>

text \<open>
  Modelled from the spec: the image list and the fetcher (\<^verbatim>\<open>image_list_*\<close>,
  \<^verbatim>\<open>fetcher_open\<close>) are not in \<^verbatim>\<open>viewer.c\<close>. Their state has the abstract type
  \<open>'l\<close>, and their functions are the fields of a record that the navigation functions take as
  a parameter. A list query returns an index, or \<open>None\<close> for \<^verbatim>\<open>IMGLIST_INVALID\<close>, together
  with the state it leaves, since a query may change the list or draw a random number.
  \<^verbatim>\<open>fetcher_open\<close> returns the image it loaded, which becomes the current one, or \<open>None\<close>
  when it returns false.
\<close>

record 'l navigator =
  image_list_size :: "'l \<Rightarrow> nat"
  image_list_first :: "'l \<Rightarrow> nat option \<times> 'l"
  image_list_last :: "'l \<Rightarrow> nat option \<times> 'l"
  image_list_prev_dir :: "nat \<Rightarrow> 'l \<Rightarrow> nat option \<times> 'l"
  image_list_next_dir :: "nat \<Rightarrow> 'l \<Rightarrow> nat option \<times> 'l"
  image_list_prev_file :: "nat \<Rightarrow> 'l \<Rightarrow> nat option \<times> 'l"
  image_list_next_file :: "nat \<Rightarrow> 'l \<Rightarrow> nat option \<times> 'l"
  image_list_rand_file :: "nat \<Rightarrow> 'l \<Rightarrow> nat option \<times> 'l"
  image_list_skip :: "nat \<Rightarrow> 'l \<Rightarrow> nat option \<times> 'l"
  fetcher_open :: "nat \<Rightarrow> 'l \<Rightarrow> image option \<times> 'l"

definition list_query :: "('l \<Rightarrow> nat option \<times> 'l) \<Rightarrow> 'l world \<Rightarrow> nat option \<times> 'l world" where
  "list_query q w = (case q (imglist w) of (r, l) \<Rightarrow> (r, w\<lparr>imglist := l\<rparr>))"

definition open_image :: "'l navigator \<Rightarrow> nat \<Rightarrow> 'l world \<Rightarrow> bool \<times> 'l world" where
  "open_image N i w =
     (case fetcher_open N i (imglist w) of
        (None, l) \<Rightarrow> (False, w\<lparr>imglist := l\<rparr>)
      | (Some im, l) \<Rightarrow> (True, w\<lparr>imglist := l, current := im\<rparr>))"

text \<open>The action tags that \<^verbatim>\<open>viewer.c\<close> names.\<close>

datatype action_type =
    action_first_file
  | action_last_file
  | action_prev_dir
  | action_next_dir
  | action_prev_file
  | action_next_file
  | action_rand_file
  | action_skip_file
  | action_prev_frame
  | action_next_frame
  | action_animation
  | action_slideshow
  | action_mode
  | action_step_left
  | action_step_right
  | action_step_up
  | action_step_down
  | action_zoom
  | action_scale
  | action_keep_zoom
  | action_rotate_left
  | action_rotate_right
  | action_flip_vertical
  | action_flip_horizontal
  | action_antialiasing
  | action_reload
  | action_exec
  | action_export

definition reset_state :: "'l navigator \<Rightarrow> 'l world \<Rightarrow> 'l world" where
  "reset_state N w =
     (let img = current w;
          total_img = image_list_size N (imglist w);
          w1 = w\<lparr>ctx := (ctx w)\<lparr>frame := 0\<rparr>\<rparr>;
          w2 = (if \<not> keep_zoom (ctx w1) \<or> scale (ctx w1) = 0
                then set_scale (scale_init (ctx w1)) w1
                else
                  (let c = ctx w1;
                       diff_w = img_w c - int (width (pm (frames img ! 0)));
                       diff_h = img_h c - int (height (pm (frames img ! 0)));
                       c1 = c\<lparr>img_x := c_trunc (real_of_int (img_x c)
                                     + real_of_int \<lfloor>scale c * real_of_int diff_w\<rfloor> / 2)\<rparr>;
                       c2 = c1\<lparr>img_y := c_trunc (real_of_int (img_y c1)
                                     + real_of_int \<lfloor>scale c1 * real_of_int diff_h\<rfloor> / 2)\<rparr>
                   in fixup_position True (w1\<lparr>ctx := c2\<rparr>)));
          w3 = w2\<lparr>ctx := (ctx w2)\<lparr>img_w := int (width (pm (frames img ! 0))),
                                    img_h := int (height (pm (frames img ! 0)))\<rparr>\<rparr>;
          w4 = w3\<lparr>title := name img\<rparr>;
          w5 = animation_ctl True w4;
          w6 = slideshow_ctl (slideshow_enable (ctx w5)) w5;
          w7 = w6\<lparr>info_log := info_log w6 @ [InfoReset img]\<rparr>;
          w8 = info_update info_scale ''%.0f%%'' [ArgReal (scale (ctx w7) * 100)] w7;
          w9 = (if total_img \<noteq> 0
                then info_update info_index ''%zu of %zu''
                       [ArgNat (index img + 1), ArgNat total_img] w8
                else w8);
          w10 = w9\<lparr>content_animated := animation_enable (ctx w9)\<rparr>
      in app_redraw w10)"

text \<open>
  The loops of \<^verbatim>\<open>skip_image\<close> and \<^verbatim>\<open>next_image\<close> end when the list is exhausted or an image
  opens; nothing in \<^verbatim>\<open>viewer.c\<close> bounds them. The first argument after the navigator is fuel:
  the number of times the loop condition may be evaluated. \<open>None\<close> is "out of fuel".
\<close>

fun skip_image_loop ::
  "'l navigator \<Rightarrow> nat \<Rightarrow> nat option \<Rightarrow> 'l world \<Rightarrow> (nat option \<times> 'l world) option" where
  "skip_image_loop N 0 idx w = None"
| "skip_image_loop N (Suc n) None w = Some (None, w)"
| "skip_image_loop N (Suc n) (Some i) w =
     (case open_image N i w of
        (True, w1) \<Rightarrow> Some (Some i, w1)
      | (False, w1) \<Rightarrow>
          (case list_query (image_list_skip N i) w1 of
             (idx', w2) \<Rightarrow> skip_image_loop N n idx' w2))"

definition skip_image :: "'l navigator \<Rightarrow> nat \<Rightarrow> 'l world \<Rightarrow> (bool \<times> 'l world) option" where
  "skip_image N fuel w =
     (let current_index = index (current w)
      in case list_query (image_list_skip N current_index) w of
           (index0, w1) \<Rightarrow>
             (case skip_image_loop N fuel index0 w1 of
                None \<Rightarrow> None
              | Some (r, w2) \<Rightarrow> Some (r \<noteq> None, w2)))"

text \<open>
  The \<^verbatim>\<open>switch\<close> in the body of the \<^verbatim>\<open>do\<close> loop of \<^verbatim>\<open>next_image\<close>: the new index, the new
  direction and the world after the list query.
\<close>

definition next_candidate ::
  "'l navigator \<Rightarrow> action_type \<Rightarrow> nat \<Rightarrow> 'l world \<Rightarrow> nat option \<times> action_type \<times> 'l world" where
  "next_candidate N direction idx w =
     (case direction of
        action_first_file \<Rightarrow>
          (case list_query (image_list_first N) w of (i, w1) \<Rightarrow> (i, action_next_file, w1))
      | action_last_file \<Rightarrow>
          (case list_query (image_list_last N) w of (i, w1) \<Rightarrow> (i, action_prev_file, w1))
      | action_prev_dir \<Rightarrow>
          (case list_query (image_list_prev_dir N idx) w of (i, w1) \<Rightarrow> (i, direction, w1))
      | action_next_dir \<Rightarrow>
          (case list_query (image_list_next_dir N idx) w of (i, w1) \<Rightarrow> (i, direction, w1))
      | action_prev_file \<Rightarrow>
          (case list_query (image_list_prev_file N idx) w of (i, w1) \<Rightarrow> (i, direction, w1))
      | action_next_file \<Rightarrow>
          (case list_query (image_list_next_file N idx) w of (i, w1) \<Rightarrow> (i, direction, w1))
      | action_rand_file \<Rightarrow>
          (case list_query (image_list_rand_file N idx) w of (i, w1) \<Rightarrow> (i, direction, w1))
      | _ \<Rightarrow> (Some idx, direction, w))"

fun next_image_loop ::
  "'l navigator \<Rightarrow> nat \<Rightarrow> action_type \<Rightarrow> nat \<Rightarrow> 'l world \<Rightarrow> (nat option \<times> 'l world) option" where
  "next_image_loop N 0 direction idx w = None"
| "next_image_loop N (Suc n) direction idx w =
     (case next_candidate N direction idx w of
        (None, direction', w1) \<Rightarrow> Some (None, w1)
      | (Some i, direction', w1) \<Rightarrow>
          (case open_image N i w1 of
             (True, w2) \<Rightarrow> Some (Some i, w2)
           | (False, w2) \<Rightarrow> next_image_loop N n direction' i w2))"

definition next_image ::
  "'l navigator \<Rightarrow> nat \<Rightarrow> action_type \<Rightarrow> 'l world \<Rightarrow> (bool \<times> 'l world) option" where
  "next_image N fuel direction w =
     (case next_image_loop N fuel direction (index (current w)) w of
        None \<Rightarrow> None
      | Some (None, w1) \<Rightarrow> Some (False, w1)
      | Some (Some i, w1) \<Rightarrow> Some (True, reset_state N w1))"

section \<open>Notions of the specification\<close>

text \<open>
  The per-axis rules of the anchors, in the words of the specification: every anchor
  resolves per axis to start (coordinate 0), end (window minus image) or centered (half of
  the remaining space). A coordinate \<open>x\<close> is centered when it is the difference of the two
  halves, which puts twice \<open>x\<close> within one pixel of the remaining space.
\<close>

datatype axis_rule = rule_start | rule_centered | rule_end

fun horizontal_rule :: "position \<Rightarrow> axis_rule" where
  "horizontal_rule position_top = rule_centered"
| "horizontal_rule position_center = rule_centered"
| "horizontal_rule position_bottom = rule_centered"
| "horizontal_rule position_left = rule_start"
| "horizontal_rule position_right = rule_end"
| "horizontal_rule position_top_left = rule_start"
| "horizontal_rule position_top_right = rule_end"
| "horizontal_rule position_bottom_left = rule_start"
| "horizontal_rule position_bottom_right = rule_end"

fun vertical_rule :: "position \<Rightarrow> axis_rule" where
  "vertical_rule position_top = rule_start"
| "vertical_rule position_center = rule_centered"
| "vertical_rule position_bottom = rule_end"
| "vertical_rule position_left = rule_centered"
| "vertical_rule position_right = rule_centered"
| "vertical_rule position_top_left = rule_start"
| "vertical_rule position_top_right = rule_start"
| "vertical_rule position_bottom_left = rule_end"
| "vertical_rule position_bottom_right = rule_end"

fun rule_coord :: "axis_rule \<Rightarrow> int \<Rightarrow> int \<Rightarrow> int" where
  "rule_coord rule_start wnd img = 0"
| "rule_coord rule_end wnd img = wnd - img"
| "rule_coord rule_centered wnd img = wnd div 2 - img div 2"

fun axis_placed :: "axis_rule \<Rightarrow> int \<Rightarrow> int \<Rightarrow> int \<Rightarrow> bool" where
  "axis_placed rule_start wnd img x = (x = 0)"
| "axis_placed rule_end wnd img x = (x = wnd - img)"
| "axis_placed rule_centered wnd img x =
     (x = wnd div 2 - img div 2 \<and> \<bar>2 * x - (wnd - img)\<bar> \<le> 1)"

text \<open>The scaled size of the current frame, as \<^verbatim>\<open>fixup_position\<close> computes it.\<close>

definition scaled_width :: "'l world \<Rightarrow> int" where
  "scaled_width w = c_trunc (scale (ctx w) * real (width (current_pm w)))"

definition scaled_height :: "'l world \<Rightarrow> int" where
  "scaled_height w = c_trunc (scale (ctx w) * real (height (current_pm w)))"

text \<open>
  The image-space point under the window centre:
  \<open>centerImg = windowHalf / scale - position / scale\<close> per axis.
\<close>

definition pivot_x :: "'l world \<Rightarrow> real" where
  "pivot_x w = (real (ui_width w) / 2) / scale (ctx w) - real_of_int (img_x (ctx w)) / scale (ctx w)"

definition pivot_y :: "'l world \<Rightarrow> real" where
  "pivot_y w = (real (ui_height w) / 2) / scale (ctx w) - real_of_int (img_y (ctx w)) / scale (ctx w)"

text \<open>
  The retry policy of the specification: starting from a first candidate, given by the
  query \<open>start\<close>, attempt to open it; on load failure advance with the continuation query
  \<open>cont\<close>, and go on until an open succeeds (\<open>Some i\<close>) or a query returns the exhaustion
  sentinel (\<open>None\<close>). The fuel bounds the number of attempts.
\<close>

fun navigate ::
  "'l navigator \<Rightarrow> (nat \<Rightarrow> 'l \<Rightarrow> nat option \<times> 'l) \<Rightarrow> (nat \<Rightarrow> 'l \<Rightarrow> nat option \<times> 'l) \<Rightarrow>
   nat \<Rightarrow> nat \<Rightarrow> 'l world \<Rightarrow> (nat option \<times> 'l world) option" where
  "navigate N start cont 0 idx w = None"
| "navigate N start cont (Suc n) idx w =
     (case list_query (start idx) w of
        (None, w1) \<Rightarrow> Some (None, w1)
      | (Some i, w1) \<Rightarrow>
          (case open_image N i w1 of
             (True, w2) \<Rightarrow> Some (Some i, w2)
           | (False, w2) \<Rightarrow> navigate N cont cont n i w2))"

text \<open>What the caller gets: whether an image was loaded; \<open>reset\<close> runs after a success.\<close>

definition loaded ::
  "('l world \<Rightarrow> 'l world) \<Rightarrow> (nat option \<times> 'l world) option \<Rightarrow> (bool \<times> 'l world) option" where
  "loaded reset r =
     (case r of
        None \<Rightarrow> None
      | Some (None, w) \<Rightarrow> Some (False, w)
      | Some (Some i, w) \<Rightarrow> Some (True, reset w))"

text \<open>Two contexts that differ in the position of the image only.\<close>

definition same_but_xy :: "viewer \<Rightarrow> viewer \<Rightarrow> bool" where
  "same_but_xy c c' = (c' = c\<lparr>img_x := img_x c', img_y := img_y c'\<rparr>)"

text \<open>
  One axis of \<^verbatim>\<open>fixup_position\<close>: the coordinate it leaves, from the force flag, the fixed
  mode, the window and image sizes on that axis, the coordinate of the anchor and the
  coordinate before.
\<close>

definition fixup_axis :: "bool \<Rightarrow> bool \<Rightarrow> int \<Rightarrow> int \<Rightarrow> int \<Rightarrow> int \<Rightarrow> int" where
  "fixup_axis force fx wnd img anchored x0 =
     (let x1 = (if force \<or> (fx \<and> img \<le> wnd) then anchored else x0);
          x2 = (if fx
                then (if x1 > 0 \<and> x1 + img > wnd then 0
                      else if x1 < 0 \<and> x1 + img < wnd then wnd - img else x1)
                else x1);
          x3 = (if x2 + img < 0 then - img else x2)
      in if x3 > wnd then wnd else x3)"

text \<open>The scale of each policy, from the two real-valued fits \<open>sw\<close> and \<open>sh\<close>.\<close>

definition policy_scale :: "fixed_scale \<Rightarrow> real \<Rightarrow> real \<Rightarrow> real" where
  "policy_scale sc sw sh =
     (case sc of
        scale_fit_optimal \<Rightarrow> min (min sw sh) 1
      | scale_fit_window \<Rightarrow> min sw sh
      | scale_fit_width \<Rightarrow> sw
      | scale_fit_height \<Rightarrow> sh
      | scale_fill_window \<Rightarrow> max sw sh
      | scale_real_size \<Rightarrow> 1)"

section \<open>Example states\<close>

text \<open>
  A one-frame image of a given size, a context with a given fixed mode, anchor and scale at
  position \<open>(0, 0)\<close>, and a world with a given window size whose two timers exist.
\<close>

definition ex_image :: "nat \<Rightarrow> nat \<Rightarrow> image" where
  "ex_image w h =
     \<lparr>frames = [\<lparr>pm = \<lparr>width = w, height = h\<rparr>, duration = 100\<rparr>],
      num_frames = 1, index = 0, name = ''a.png''\<rparr>"

definition ex_ctx :: "bool \<Rightarrow> position \<Rightarrow> real \<Rightarrow> viewer" where
  "ex_ctx fx pos sc =
     \<lparr>img_x = 0, img_y = 0, img_w = 0, img_h = 0, frame = 0, image_bkg = 0, window_bkg = 0,
      fixed = fx, scale_init = scale_fit_optimal, keep_zoom = False, position = pos,
      scale = sc, animation_enable = True, animation_fd = 3, slideshow_enable = False,
      slideshow_fd = 4, slideshow_time = 3\<rparr>"

definition ex_world_of :: "'l \<Rightarrow> nat \<Rightarrow> nat \<Rightarrow> image \<Rightarrow> viewer \<Rightarrow> 'l world" where
  "ex_world_of l ww wh img c =
     \<lparr>ctx = c, ui_width = ww, ui_height = wh, current = img, imglist = l,
      timerfd = [3 \<mapsto> ts_zero, 4 \<mapsto> ts_zero], stderr_log = [], info_log = [],
      redraws = 0, title = [], content_animated = False\<rparr>"

definition ex_world :: "nat \<Rightarrow> nat \<Rightarrow> image \<Rightarrow> viewer \<Rightarrow> unit world" where
  "ex_world ww wh img c = ex_world_of () ww wh img c"

text \<open>
  A list of two images, of which the first loads and the second does not, as a navigator
  over the list of the "loads" flags: the files follow each other in the order of the list
  and the list does not wrap around.
\<close>

definition ex_nav :: "bool list navigator" where
  "ex_nav =
     \<lparr>image_list_size = length,
      image_list_first = (\<lambda>l. (if l = [] then None else Some 0, l)),
      image_list_last = (\<lambda>l. (if l = [] then None else Some (length l - 1), l)),
      image_list_prev_dir = (\<lambda>i l. (None, l)),
      image_list_next_dir = (\<lambda>i l. (None, l)),
      image_list_prev_file = (\<lambda>i l. (if 0 < i then Some (i - 1) else None, l)),
      image_list_next_file = (\<lambda>i l. (if i + 1 < length l then Some (i + 1) else None, l)),
      image_list_rand_file = (\<lambda>i l. (None, l)),
      image_list_skip = (\<lambda>i l. (if i + 1 < length l then Some (i + 1) else None, l)),
      fetcher_open = (\<lambda>i l. (if i < length l \<and> l ! i
                                 then Some ((ex_image 8 8)\<lparr>index := i\<rparr>) else None, l))\<rparr>"

text \<open>
  A rounding with the largest relative error that an operation in \<^verbatim>\<open>double\<close> can have:
  every result is moved away from zero by the factor \<open>1 + 2^-53\<close>.
\<close>

definition ex_rd :: "real \<Rightarrow> real" where
  "ex_rd x = x * (1 + 1 / 2 ^ 53)"

section \<open>Basic facts\<close>

lemma ex_world_sel:
  "ctx (ex_world ww wh img c) = c" "ui_width (ex_world ww wh img c) = ww"
  "ui_height (ex_world ww wh img c) = wh" "current (ex_world ww wh img c) = img"
  "stderr_log (ex_world ww wh img c) = []" "redraws (ex_world ww wh img c) = 0"
  "timerfd (ex_world ww wh img c) = [3 \<mapsto> ts_zero, 4 \<mapsto> ts_zero]"
  by (simp_all add: ex_world_def ex_world_of_def)

lemma ex_ctx_sel:
  "img_x (ex_ctx fx pos sc) = 0" "img_y (ex_ctx fx pos sc) = 0" "frame (ex_ctx fx pos sc) = 0"
  "fixed (ex_ctx fx pos sc) = fx" "position (ex_ctx fx pos sc) = pos"
  "scale (ex_ctx fx pos sc) = sc" "scale_init (ex_ctx fx pos sc) = scale_fit_optimal"
  "animation_fd (ex_ctx fx pos sc) = 3"
  by (simp_all add: ex_ctx_def)

lemma ex_image_sel:
  "frames (ex_image w h) = [\<lparr>pm = \<lparr>width = w, height = h\<rparr>, duration = 100\<rparr>]"
  "num_frames (ex_image w h) = 1" "index (ex_image w h) = 0"
  by (simp_all add: ex_image_def)

lemma ex_current_pm:
  "current_pm (ex_world ww wh (ex_image w h) (ex_ctx fx pos sc)) = \<lparr>width = w, height = h\<rparr>"
  by (simp add: current_pm_def ex_world_sel ex_ctx_sel ex_image_sel)

lemma c_div_2_nonneg: "0 \<le> a \<Longrightarrow> c_div a 2 = a div 2"
  by (cases "a = 0") (simp_all add: c_div_def)

lemma c_trunc_nonneg: "0 \<le> r \<Longrightarrow> 0 \<le> c_trunc r"
  by (simp add: c_trunc_def)

lemma same_but_xy_refl: "same_but_xy c c"
  by (simp add: same_but_xy_def)

lemma same_but_xy_trans:
  assumes "same_but_xy a b" "same_but_xy b c"
  shows "same_but_xy a c"
proof -
  have b: "b = a\<lparr>img_x := img_x b, img_y := img_y b\<rparr>"
    using assms(1) by (simp add: same_but_xy_def)
  have c: "c = b\<lparr>img_x := img_x c, img_y := img_y c\<rparr>"
    using assms(2) by (simp add: same_but_xy_def)
  have "c = a\<lparr>img_x := img_x c, img_y := img_y c\<rparr>"
    by (subst c, subst b) simp
  then show ?thesis
    by (simp add: same_but_xy_def)
qed

lemma same_but_xy_x: "same_but_xy c (c\<lparr>img_x := v\<rparr>)"
  by (simp add: same_but_xy_def)

lemma same_but_xy_y: "same_but_xy c (c\<lparr>img_y := v\<rparr>)"
  by (simp add: same_but_xy_def)

lemma same_but_xy_sel:
  assumes "same_but_xy c c'"
  shows "scale c' = scale c" "scale_init c' = scale_init c" "frame c' = frame c"
    "fixed c' = fixed c" "position c' = position c" "keep_zoom c' = keep_zoom c"
    "animation_enable c' = animation_enable c" "animation_fd c' = animation_fd c"
    "slideshow_enable c' = slideshow_enable c" "slideshow_fd c' = slideshow_fd c"
    "slideshow_time c' = slideshow_time c" "img_w c' = img_w c" "img_h c' = img_h c"
  by (subst assms [unfolded same_but_xy_def], simp)+

lemma switch_x_sel:
  "img_y (switch_x ww iw c) = img_y c"
  "fixed (switch_x ww iw c) = fixed c"
  "position (switch_x ww iw c) = position c"
  by (cases "position c"; simp add: switch_x_def)+

lemma switch_y_sel:
  "img_x (switch_y wh ih c) = img_x c"
  "fixed (switch_y wh ih c) = fixed c"
  "position (switch_y wh ih c) = position c"
  by (cases "position c"; simp add: switch_y_def)+

lemma switch_x_xy: "same_but_xy c (switch_x ww iw c)"
  by (cases "position c"; simp add: switch_x_def same_but_xy_x)

lemma switch_y_xy: "same_but_xy c (switch_y wh ih c)"
  by (cases "position c"; simp add: switch_y_def same_but_xy_y)

lemma xy_if_x: "same_but_xy c d \<Longrightarrow> same_but_xy c (if b then d\<lparr>img_x := v\<rparr> else d)"
  using same_but_xy_trans [OF _ same_but_xy_x] by simp

lemma xy_if_y: "same_but_xy c d \<Longrightarrow> same_but_xy c (if b then d\<lparr>img_y := v\<rparr> else d)"
  using same_but_xy_trans [OF _ same_but_xy_y] by simp

lemma xy_Let:
  "same_but_xy c a \<Longrightarrow> (\<And>x. same_but_xy c x \<Longrightarrow> same_but_xy c (f x)) \<Longrightarrow> same_but_xy c (Let a f)"
  by simp

lemma bind_border_xy: "same_but_xy c (bind_border ww wh iw ih c)"
  unfolding bind_border_def
  by (rule xy_Let xy_if_x xy_if_y same_but_xy_refl | assumption)+

lemma keep_near_xy: "same_but_xy c (keep_near ww wh iw ih c)"
  unfolding keep_near_def
  by (rule xy_Let xy_if_x xy_if_y same_but_xy_refl | assumption)+

lemma xy_if: "same_but_xy c d \<Longrightarrow> same_but_xy c e \<Longrightarrow> same_but_xy c (if b then d else e)"
  by simp

lemma fixup_ctx_xy: "same_but_xy c (fixup_ctx force ww wh iw ih c)"
  unfolding fixup_ctx_def
  by (rule xy_Let xy_if same_but_xy_trans [OF _ switch_x_xy] same_but_xy_trans [OF _ switch_y_xy]
        same_but_xy_trans [OF _ bind_border_xy] same_but_xy_trans [OF _ keep_near_xy]
        same_but_xy_refl | assumption)+

lemmas fixup_ctx_sel = same_but_xy_sel [OF fixup_ctx_xy]

lemma fixup_position_ctx:
  "ctx (fixup_position force w) =
     fixup_ctx force (int (ui_width w)) (int (ui_height w)) (scaled_width w) (scaled_height w) (ctx w)"
  by (simp add: fixup_position_def Let_def scaled_width_def scaled_height_def)

lemma fixup_position_world:
  "ui_width (fixup_position force w) = ui_width w"
  "ui_height (fixup_position force w) = ui_height w"
  "current (fixup_position force w) = current w"
  "imglist (fixup_position force w) = imglist w"
  "timerfd (fixup_position force w) = timerfd w"
  "stderr_log (fixup_position force w) = stderr_log w"
  "info_log (fixup_position force w) = info_log w"
  "redraws (fixup_position force w) = redraws w"
  "title (fixup_position force w) = title w"
  "content_animated (fixup_position force w) = content_animated w"
  by (simp_all add: fixup_position_def Let_def)

lemma fixup_position_sel:
  "scale (ctx (fixup_position force w)) = scale (ctx w)"
  "scale_init (ctx (fixup_position force w)) = scale_init (ctx w)"
  "frame (ctx (fixup_position force w)) = frame (ctx w)"
  "fixed (ctx (fixup_position force w)) = fixed (ctx w)"
  "position (ctx (fixup_position force w)) = position (ctx w)"
  "keep_zoom (ctx (fixup_position force w)) = keep_zoom (ctx w)"
  "animation_enable (ctx (fixup_position force w)) = animation_enable (ctx w)"
  "animation_fd (ctx (fixup_position force w)) = animation_fd (ctx w)"
  "slideshow_enable (ctx (fixup_position force w)) = slideshow_enable (ctx w)"
  "slideshow_fd (ctx (fixup_position force w)) = slideshow_fd (ctx w)"
  "slideshow_time (ctx (fixup_position force w)) = slideshow_time (ctx w)"
  by (simp_all add: fixup_position_ctx fixup_ctx_sel)

lemma current_pm_fixup: "current_pm (fixup_position force w) = current_pm w"
  by (simp add: current_pm_def fixup_position_world fixup_position_sel)

subsection \<open>Forced fixup\<close>

lemma switch_x_coord:
  "0 \<le> ww \<Longrightarrow> 0 \<le> iw \<Longrightarrow>
   img_x (switch_x ww iw c) = rule_coord (horizontal_rule (position c)) ww iw"
  by (cases "position c"; simp add: switch_x_def c_div_2_nonneg)

lemma switch_y_coord:
  "0 \<le> wh \<Longrightarrow> 0 \<le> ih \<Longrightarrow>
   img_y (switch_y wh ih c) = rule_coord (vertical_rule (position c)) wh ih"
  by (cases "position c"; simp add: switch_y_def c_div_2_nonneg)

lemma bind_border_x:
  "img_x (bind_border ww wh iw ih c) =
     (if img_x c > 0 \<and> img_x c + iw > ww then 0
      else if img_x c < 0 \<and> img_x c + iw < ww then ww - iw else img_x c)"
  by (simp add: bind_border_def Let_def)

lemma bind_border_y:
  "img_y (bind_border ww wh iw ih c) =
     (if img_y c > 0 \<and> img_y c + ih > wh then 0
      else if img_y c < 0 \<and> img_y c + ih < wh then wh - ih else img_y c)"
  by (simp add: bind_border_def Let_def)

lemma keep_near_x:
  "img_x (keep_near ww wh iw ih c) =
     (let x = (if img_x c + iw < 0 then - iw else img_x c) in if x > ww then ww else x)"
  by (simp add: keep_near_def Let_def)

lemma keep_near_y:
  "img_y (keep_near ww wh iw ih c) =
     (let y = (if img_y c + ih < 0 then - ih else img_y c) in if y > wh then wh else y)"
  by (simp add: keep_near_def Let_def)

lemma rule_coord_stable:
  assumes "0 \<le> wnd" "0 \<le> img" "x = rule_coord r wnd img"
  shows "\<not> (x > 0 \<and> x + img > wnd)" "\<not> (x < 0 \<and> x + img < wnd)"
        "\<not> x + img < 0" "\<not> x > wnd"
  using assms by (cases r; simp; presburger)+

lemma settled_x:
  assumes "\<not> (img_x c > 0 \<and> img_x c + iw > ww)" "\<not> (img_x c < 0 \<and> img_x c + iw < ww)"
    "\<not> img_x c + iw < 0" "\<not> img_x c > ww"
  shows "img_x (keep_near ww wh iw ih (if b then bind_border ww wh iw ih c else c)) = img_x c"
  using assms by (auto simp add: keep_near_x bind_border_x Let_def)

lemma settled_y:
  assumes "\<not> (img_y c > 0 \<and> img_y c + ih > wh)" "\<not> (img_y c < 0 \<and> img_y c + ih < wh)"
    "\<not> img_y c + ih < 0" "\<not> img_y c > wh"
  shows "img_y (keep_near ww wh iw ih (if b then bind_border ww wh iw ih c else c)) = img_y c"
  using assms by (auto simp add: keep_near_y bind_border_y Let_def)

lemma fixup_ctx_forced_x:
  assumes "0 \<le> ww" "0 \<le> iw"
  shows "img_x (fixup_ctx True ww wh iw ih c) = rule_coord (horizontal_rule (position c)) ww iw"
proof -
  let ?c2 = "switch_y wh ih (switch_x ww iw c)"
  have x: "img_x ?c2 = rule_coord (horizontal_rule (position c)) ww iw"
    by (simp add: switch_y_sel switch_x_coord [OF assms])
  have "img_x (keep_near ww wh iw ih (if fixed ?c2 then bind_border ww wh iw ih ?c2 else ?c2))
          = img_x ?c2"
    using rule_coord_stable [OF assms x] by (intro settled_x)
  then show ?thesis
    by (simp add: fixup_ctx_def Let_def x)
qed

lemma fixup_ctx_forced_y:
  assumes "0 \<le> wh" "0 \<le> ih"
  shows "img_y (fixup_ctx True ww wh iw ih c) = rule_coord (vertical_rule (position c)) wh ih"
proof -
  let ?c2 = "switch_y wh ih (switch_x ww iw c)"
  have y: "img_y ?c2 = rule_coord (vertical_rule (position c)) wh ih"
    by (simp add: switch_x_sel switch_y_coord [OF assms])
  have "img_y (keep_near ww wh iw ih (if fixed ?c2 then bind_border ww wh iw ih ?c2 else ?c2))
          = img_y ?c2"
    using rule_coord_stable [OF assms y] by (intro settled_y)
  then show ?thesis
    by (simp add: fixup_ctx_def Let_def y)
qed

lemma axis_placed_rule_coord: "axis_placed r wnd img (rule_coord r wnd img)"
  by (cases r) simp_all

lemma scaled_nonneg:
  "0 \<le> scale (ctx w) \<Longrightarrow> 0 \<le> scaled_width w"
  "0 \<le> scale (ctx w) \<Longrightarrow> 0 \<le> scaled_height w"
  by (simp_all add: scaled_width_def scaled_height_def c_trunc_nonneg)

text \<open>
  Claim C3. For every anchor, both values of the fixed mode, every window size and every
  size of the scaled image (also larger than the window), a forced fixup puts the image at
  the coordinate of the anchor's rule on each axis: 0 for start, window minus scaled image
  for end, and the centered coordinate otherwise. The scale is not negative.
\<close>

theorem forced_fixup_places_by_anchor:
  assumes "0 \<le> scale (ctx w)"
  shows "axis_placed (horizontal_rule (position (ctx w))) (int (ui_width w)) (scaled_width w)
           (img_x (ctx (fixup_position True w)))
       \<and> axis_placed (vertical_rule (position (ctx w))) (int (ui_height w)) (scaled_height w)
           (img_y (ctx (fixup_position True w)))"
  using scaled_nonneg [OF assms]
  by (simp add: fixup_position_ctx fixup_ctx_forced_x fixup_ctx_forced_y axis_placed_rule_coord)

theorem forced_fixup_places_by_anchor_witness:
  "0 \<le> scale (ctx (ex_world 100 100 (ex_image 8 8) (ex_ctx True position_bottom_right 25)))
   \<and> img_x (ctx (fixup_position True
        (ex_world 100 100 (ex_image 8 8) (ex_ctx True position_bottom_right 25)))) = - 100
   \<and> img_y (ctx (fixup_position True
        (ex_world 100 100 (ex_image 8 8) (ex_ctx True position_bottom_right 25)))) = - 100"
  using forced_fixup_places_by_anchor
    [of "ex_world 100 100 (ex_image 8 8) (ex_ctx True position_bottom_right 25)"]
  by (simp add: ex_world_sel ex_ctx_sel ex_current_pm scaled_width_def scaled_height_def
      c_trunc_def)

subsection \<open>Effects on the collaborators\<close>

lemma app_redraw_sel:
  "ctx (app_redraw w) = ctx w" "ui_width (app_redraw w) = ui_width w"
  "ui_height (app_redraw w) = ui_height w" "current (app_redraw w) = current w"
  "imglist (app_redraw w) = imglist w" "timerfd (app_redraw w) = timerfd w"
  "stderr_log (app_redraw w) = stderr_log w" "info_log (app_redraw w) = info_log w"
  "redraws (app_redraw w) = Suc (redraws w)"
  by (simp_all add: app_redraw_def)

lemma info_update_sel:
  "ctx (info_update f fmt args w) = ctx w" "ui_width (info_update f fmt args w) = ui_width w"
  "ui_height (info_update f fmt args w) = ui_height w"
  "current (info_update f fmt args w) = current w"
  "imglist (info_update f fmt args w) = imglist w"
  "timerfd (info_update f fmt args w) = timerfd w"
  "stderr_log (info_update f fmt args w) = stderr_log w"
  "info_log (info_update f fmt args w) = info_log w @ [InfoUpdate f fmt args]"
  "redraws (info_update f fmt args w) = redraws w"
  by (simp_all add: info_update_def)

lemma fprintf_stderr_sel:
  "ctx (fprintf_stderr fmt args w) = ctx w" "ui_width (fprintf_stderr fmt args w) = ui_width w"
  "ui_height (fprintf_stderr fmt args w) = ui_height w"
  "current (fprintf_stderr fmt args w) = current w"
  "imglist (fprintf_stderr fmt args w) = imglist w"
  "timerfd (fprintf_stderr fmt args w) = timerfd w"
  "stderr_log (fprintf_stderr fmt args w) = stderr_log w @ [(fmt, args)]"
  "info_log (fprintf_stderr fmt args w) = info_log w"
  "redraws (fprintf_stderr fmt args w) = redraws w"
  by (simp_all add: fprintf_stderr_def)

lemma current_pm_cong:
  "current w' = current w \<Longrightarrow> frame (ctx w') = frame (ctx w) \<Longrightarrow> current_pm w' = current_pm w"
  by (simp add: current_pm_def)

subsection \<open>Scale policies\<close>

lemma set_scale_scale:
  "scale (ctx (set_scale sc w)) =
     policy_scale sc (1 / (real (width (current_pm w)) / real (ui_width w)))
       (1 / (real (height (current_pm w)) / real (ui_height w)))"
  by (cases sc; simp add: set_scale_def Let_def info_update_sel fixup_position_sel policy_scale_def;
      linarith)

lemma set_scale_sel:
  "scale_init (ctx (set_scale sc w)) = scale_init (ctx w)"
  "frame (ctx (set_scale sc w)) = frame (ctx w)"
  "fixed (ctx (set_scale sc w)) = fixed (ctx w)"
  "position (ctx (set_scale sc w)) = position (ctx w)"
  "ui_width (set_scale sc w) = ui_width w"
  "ui_height (set_scale sc w) = ui_height w"
  "current (set_scale sc w) = current w"
  "stderr_log (set_scale sc w) = stderr_log w"
  by (cases sc; simp add: set_scale_def Let_def info_update_sel fixup_position_sel
        fixup_position_world)+

text \<open>
  Claim C6. For every window size and frame size: the optimal scale is at most 1 and is the
  minimum of the fit scale and 1, the fill scale is at least the fit scale, and the real
  scale is 1.
\<close>

theorem policy_scales:
  "scale (ctx (set_scale scale_fit_optimal w)) \<le> 1
   \<and> scale (ctx (set_scale scale_fit_optimal w)) = min (scale (ctx (set_scale scale_fit_window w))) 1
   \<and> scale (ctx (set_scale scale_fill_window w)) \<ge> scale (ctx (set_scale scale_fit_window w))
   \<and> scale (ctx (set_scale scale_real_size w)) = 1"
  by (simp add: set_scale_scale policy_scale_def)

subsection \<open>Cycling\<close>

lemma scale_image_toggle:
  "scale_init (ctx (scale_image None w)) =
     fixed_scale_of ((fixed_scale_value (scale_init (ctx w)) + 1) mod 6)"
  "scale_init (ctx (scale_image (Some []) w)) =
     fixed_scale_of ((fixed_scale_value (scale_init (ctx w)) + 1) mod 6)"
  by (cases "scale_init (ctx w)";
      simp add: scale_image_def Let_def app_redraw_sel set_scale_sel info_update_sel
        scale_names_def)+

lemma toggle_6: 
  "fixed_scale_of ((fixed_scale_value (fixed_scale_of ((fixed_scale_value (fixed_scale_of ((fixed_scale_value (fixed_scale_of ((fixed_scale_value (fixed_scale_of ((fixed_scale_value (fixed_scale_of ((fixed_scale_value s + 1) mod 6)) + 1) mod 6)) + 1) mod 6)) + 1) mod 6)) + 1) mod 6)) + 1) mod 6) = s"
  by (cases s; simp add: fixed_scale_of_def)

lemma funpow_6: "(f ^^ 6) x = f (f (f (f (f (f x)))))"
  by (simp add: eval_nat_numeral)

text \<open>
  Claim C8. From every scale policy, six calls of \<open>scale_image\<close> with an absent or an empty
  parameter bring the stored policy back to where it started; one call moves the policy to
  its successor in the order optimal, fit, width, height, fill, real, and from real to
  optimal.
\<close>

theorem scale_toggle_period_6:
  "scale_init (ctx ((scale_image None ^^ 6) w)) = scale_init (ctx w)
   \<and> scale_init (ctx ((scale_image (Some []) ^^ 6) w)) = scale_init (ctx w)
   \<and> scale_init (ctx (scale_image None w))
       = fixed_scale_of ((fixed_scale_value (scale_init (ctx w)) + 1) mod 6)"
  by (simp only: funpow_6 scale_image_toggle toggle_6 simp_thms)

subsection \<open>Single-frame images\<close>

text \<open>
  Claim C9. When the current image has one frame, enabling the animation leaves the
  animation flag false and the timer disarmed: the timer of the animation descriptor, when
  there is one, is set to the zero \<open>itimerspec\<close>, whatever the duration of the frame.
\<close>

theorem animation_disarmed_single_frame:
  assumes "num_frames (current w) = 1"
  shows "\<not> animation_enable (ctx (animation_ctl True w))
       \<and> \<not> armed (animation_ctl True w) (animation_fd (ctx w))
       \<and> timerfd (animation_ctl True w) (animation_fd (ctx w))
           = map_option (\<lambda>_. ts_zero) (timerfd w (animation_fd (ctx w)))"
  using assms
  by (simp add: animation_ctl_def Let_def timerfd_settime_def armed_def ts_zero_def
      split: option.split)

theorem animation_disarmed_single_frame_witness:
  "num_frames (current (ex_world 100 100 (ex_image 8 8) (ex_ctx True position_center 1))) = 1
   \<and> \<not> animation_enable (ctx (animation_ctl True
        (ex_world 100 100 (ex_image 8 8) (ex_ctx True position_center 1))))
   \<and> timerfd (animation_ctl True
        (ex_world 100 100 (ex_image 8 8) (ex_ctx True position_center 1))) 3 = Some ts_zero"
  using animation_disarmed_single_frame
    [of "ex_world 100 100 (ex_image 8 8) (ex_ctx True position_center 1)"]
  by (simp add: ex_world_sel ex_ctx_sel ex_image_sel)

text \<open>
  Claim C10. On an image with one frame, \<open>next_frame\<close> in either direction changes
  nothing: the frame index stays, no overlay text is written and no redraw is requested.
\<close>

theorem next_frame_single_noop:
  assumes "num_frames (current w) = 1" "frame (ctx w) < num_frames (current w)"
  shows "next_frame forward w = w"
  using assms by (simp add: next_frame_def Let_def)

theorem next_frame_single_noop_witness:
  "num_frames (current (ex_world 100 100 (ex_image 8 8) (ex_ctx True position_center 1))) = 1
   \<and> frame (ctx (ex_world 100 100 (ex_image 8 8) (ex_ctx True position_center 1)))
       < num_frames (current (ex_world 100 100 (ex_image 8 8) (ex_ctx True position_center 1)))
   \<and> next_frame True (ex_world 100 100 (ex_image 8 8) (ex_ctx True position_center 1))
       = ex_world 100 100 (ex_image 8 8) (ex_ctx True position_center 1)
   \<and> next_frame False (ex_world 100 100 (ex_image 8 8) (ex_ctx True position_center 1))
       = ex_world 100 100 (ex_image 8 8) (ex_ctx True position_center 1)"
  using next_frame_single_noop
    [of "ex_world 100 100 (ex_image 8 8) (ex_ctx True position_center 1)"]
  by (simp add: ex_world_sel ex_ctx_sel ex_image_sel)

subsection \<open>Zooming by a percentage\<close>

lemma str_index_nonneg_iff: "0 \<le> str_index ns v \<longleftrightarrow> v \<in> set ns"
  by (induction ns) (auto simp add: Let_def)

lemma str_index_neg: "v \<notin> set ns \<Longrightarrow> \<not> 0 \<le> str_index ns v"
  by (simp add: str_index_nonneg_iff)

lemma zoom_percent_world:
  "ui_width (zoom_percent percent w) = ui_width w"
  "ui_height (zoom_percent percent w) = ui_height w"
  "current (zoom_percent percent w) = current w"
  "imglist (zoom_percent percent w) = imglist w"
  "timerfd (zoom_percent percent w) = timerfd w"
  "stderr_log (zoom_percent percent w) = stderr_log w"
  "info_log (zoom_percent percent w) = info_log w"
  "redraws (zoom_percent percent w) = redraws w"
  by (simp_all add: zoom_percent_def Let_def)

lemma zoom_percent_scale:
  "scale (ctx (zoom_percent percent w)) =
     (if percent > 0
      then min (scale (ctx w) + scale (ctx w) / 100 * real_of_int percent) 100
      else max (scale (ctx w) + scale (ctx w) / 100 * real_of_int percent)
             (max (10 / real (width (current_pm w))) (10 / real (height (current_pm w)))))"
  by (simp add: zoom_percent_def Let_def MAX_SCALE_def MIN_SCALE_def min_def max_def)

lemma zoom_percent_sel:
  "frame (ctx (zoom_percent percent w)) = frame (ctx w)"
  "fixed (ctx (zoom_percent percent w)) = fixed (ctx w)"
  "position (ctx (zoom_percent percent w)) = position (ctx w)"
  "scale_init (ctx (zoom_percent percent w)) = scale_init (ctx w)"
  by (simp_all add: zoom_percent_def Let_def)

lemma zoom_image_percent:
  assumes "p \<noteq> []" "p \<notin> set scale_names" "str_to_num p = Some percent"
    "percent \<noteq> 0" "- 1000 < percent" "percent < 1000"
  shows "zoom_image str_to_num (Some p) w =
           app_redraw (info_update info_scale ''%.0f%%''
             [ArgReal (scale (ctx (zoom_percent percent w)) * 100)]
             (fixup_position False (zoom_percent percent w)))"
  using assms
  by (simp add: zoom_image_def Let_def str_index_neg fixup_position_sel)

lemma zoom_image_frame:
  "current (zoom_image str_to_num params w) = current w"
  "frame (ctx (zoom_image str_to_num params w)) = frame (ctx w)"
  "ui_width (zoom_image str_to_num params w) = ui_width w"
  "ui_height (zoom_image str_to_num params w) = ui_height w"
  by (simp_all add: zoom_image_def Let_def app_redraw_sel info_update_sel set_scale_sel
      fixup_position_world fixup_position_sel zoom_percent_world zoom_percent_sel
      fprintf_stderr_sel split: option.split)

lemma zoom_image_current_pm: "current_pm (zoom_image str_to_num params w) = current_pm w"
  by (simp add: current_pm_def zoom_image_frame)

lemma zoom_image_percent_scale:
  assumes "p \<noteq> []" "p \<notin> set scale_names" "str_to_num p = Some percent"
    "percent \<noteq> 0" "- 1000 < percent" "percent < 1000"
  shows "scale (ctx (zoom_image str_to_num (Some p) w)) = scale (ctx (zoom_percent percent w))"
  using assms
  by (simp add: zoom_image_percent app_redraw_sel info_update_sel fixup_position_sel)

lemma zoom_image_funpow_frame:
  "current_pm ((zoom_image str_to_num params ^^ n) w) = current_pm w"
  by (induction n) (simp_all add: zoom_image_current_pm)

subsection \<open>Zoom clamps\<close>

lemma zoom_in_900_step:
  assumes "p \<noteq> []" "p \<notin> set scale_names" "str_to_num p = Some 900"
  shows "scale (ctx (zoom_image str_to_num (Some p) w)) = min (10 * scale (ctx w)) 100"
  using assms by (simp add: zoom_image_percent_scale zoom_percent_scale)

lemma min_10_step: "min (10 * min a 100) 100 = min (10 * a) (100::real)"
  by (simp add: min_def)

lemma zoom_in_900_iter:
  assumes "p \<noteq> []" "p \<notin> set scale_names" "str_to_num p = Some 900"
  shows "scale (ctx ((zoom_image str_to_num (Some p) ^^ Suc n) w))
           = min (10 ^ Suc n * scale (ctx w)) 100"
proof (induction n)
  case 0
  show ?case by (simp add: zoom_in_900_step [of p str_to_num, OF assms])
next
  case (Suc n)
  have "scale (ctx ((zoom_image str_to_num (Some p) ^^ Suc (Suc n)) w))
          = min (10 * scale (ctx ((zoom_image str_to_num (Some p) ^^ Suc n) w))) 100"
    by (simp add: zoom_in_900_step [of p str_to_num, OF assms])
  also have "\<dots> = min (10 * (10 ^ Suc n * scale (ctx w))) 100"
    by (simp only: Suc.IH min_10_step)
  finally show ?case by (simp add: mult.assoc)
qed

lemma zoom_in_900_converges:
  assumes "p \<noteq> []" "p \<notin> set scale_names" "str_to_num p = Some 900" "0 < scale (ctx w)"
  shows "\<exists>N. \<forall>n\<ge>N. scale (ctx ((zoom_image str_to_num (Some p) ^^ n) w)) = 100"
proof -
  obtain N where N: "100 / scale (ctx w) < 10 ^ N"
    using real_arch_pow [of 10 "100 / scale (ctx w)"] by auto
  have big: "100 \<le> 10 ^ n * scale (ctx w)" if "N \<le> n" for n
  proof -
    have "(10::real) ^ N \<le> 10 ^ n"
      using that by (simp add: power_increasing)
    then have "100 / scale (ctx w) < 10 ^ n"
      using N by linarith
    then show ?thesis
      using assms(4) by (simp add: pos_divide_less_eq)
  qed
  have "scale (ctx ((zoom_image str_to_num (Some p) ^^ n) w)) = 100" if le: "Suc N \<le> n" for n
  proof -
    obtain k where k1: "n = Suc k"
      using Suc_le_D [OF le] by blast
    have k: "n = Suc k" "N \<le> k"
      using le k1 by simp_all
    have "N \<le> Suc k"
      using k(2) by (rule le_SucI)
    then have b: "100 \<le> 10 ^ Suc k * scale (ctx w)"
      by (rule big)
    have "scale (ctx ((zoom_image str_to_num (Some p) ^^ Suc k) w))
            = min (10 ^ Suc k * scale (ctx w)) 100"
      by (rule zoom_in_900_iter [of p str_to_num, OF assms(1-3)])
    also have "\<dots> = 100"
      by (rule min_absorb2 [OF b])
    finally show ?thesis
      by (simp only: k(1))
  qed
  then show ?thesis by blast
qed

lemma zoom_out_900_step:
  assumes "m \<noteq> []" "m \<notin> set scale_names" "str_to_num m = Some (- 900)"
    "0 \<le> scale (ctx w)" "width (current_pm w) = 20" "height (current_pm w) = 20"
  shows "scale (ctx (zoom_image str_to_num (Some m) w)) = 1 / 2"
  using assms by (simp add: zoom_image_percent_scale zoom_percent_scale max_def)

lemma zoom_out_900_iter:
  assumes "m \<noteq> []" "m \<notin> set scale_names" "str_to_num m = Some (- 900)"
    "0 \<le> scale (ctx w)" "width (current_pm w) = 20" "height (current_pm w) = 20"
  shows "scale (ctx ((zoom_image str_to_num (Some m) ^^ Suc n) w)) = 1 / 2"
proof (induction n)
  case 0
  show ?case using zoom_out_900_step [of m str_to_num, OF assms] by simp
next
  case (Suc n)
  let ?w = "(zoom_image str_to_num (Some m) ^^ Suc n) w"
  have sc: "0 \<le> scale (ctx ?w)"
    using Suc.IH by simp
  have wd: "width (current_pm ?w) = 20" and ht: "height (current_pm ?w) = 20"
    using assms(5,6) by (simp_all only: zoom_image_funpow_frame)
  have "scale (ctx (zoom_image str_to_num (Some m) ?w)) = 1 / 2"
    by (rule zoom_out_900_step [of m str_to_num, OF assms(1-3) sc wd ht])
  then show ?case by simp
qed

text \<open>
  Claim C7. With a parameter that \<open>str_to_num\<close> reads as 900 (and that is no policy name),
  repeated calls of \<open>zoom_image\<close> from any positive scale reach the scale 100 and stay
  there. With a parameter read as \<open>-900\<close> and a current frame of 20 by 20 pixels, the scale
  is \<open>1/2\<close> after every positive number of calls.
\<close>

theorem zoom_clamps:
  "(p \<noteq> [] \<and> p \<notin> set scale_names \<and> str_to_num p = Some 900 \<and> 0 < scale (ctx w)
      \<longrightarrow> (\<exists>N. \<forall>n\<ge>N. scale (ctx ((zoom_image str_to_num (Some p) ^^ n) w)) = 100))
   \<and> (m \<noteq> [] \<and> m \<notin> set scale_names \<and> str_to_num m = Some (- 900) \<and> 0 < scale (ctx w)
        \<and> width (current_pm w) = 20 \<and> height (current_pm w) = 20
      \<longrightarrow> (\<forall>n\<ge>1. scale (ctx ((zoom_image str_to_num (Some m) ^^ n) w)) = 1 / 2))"
proof (intro conjI impI)
  assume "p \<noteq> [] \<and> p \<notin> set scale_names \<and> str_to_num p = Some 900 \<and> 0 < scale (ctx w)"
  then show "\<exists>N. \<forall>n\<ge>N. scale (ctx ((zoom_image str_to_num (Some p) ^^ n) w)) = 100"
    using zoom_in_900_converges by blast
next
  assume a: "m \<noteq> [] \<and> m \<notin> set scale_names \<and> str_to_num m = Some (- 900) \<and> 0 < scale (ctx w)
        \<and> width (current_pm w) = 20 \<and> height (current_pm w) = 20"
  show "\<forall>n\<ge>1. scale (ctx ((zoom_image str_to_num (Some m) ^^ n) w)) = 1 / 2"
  proof (intro allI impI)
    fix n :: nat
    assume "1 \<le> n"
    then obtain k where "n = Suc k"
      using Suc_le_D by auto
    then show "scale (ctx ((zoom_image str_to_num (Some m) ^^ n) w)) = 1 / 2"
      using a zoom_out_900_iter [of m str_to_num w k] by simp
  qed
qed

lemma str_to_num_dec_examples:
  "str_to_num_dec ''+900'' = Some 900" "str_to_num_dec ''-900'' = Some (- 900)"
  "str_to_num_dec ''-50'' = Some (- 50)" "str_to_num_dec ''abc'' = None"
  "str_to_num_dec ''2000'' = Some 2000"
  by (simp_all add: str_to_num_dec_def)

theorem zoom_clamps_witness:
  "str_to_num_dec ''+900'' = Some 900 \<and> str_to_num_dec ''-900'' = Some (- 900)
   \<and> 0 < scale (ctx (ex_world 200 200 (ex_image 20 20) (ex_ctx True position_center 1)))
   \<and> width (current_pm (ex_world 200 200 (ex_image 20 20) (ex_ctx True position_center 1))) = 20
   \<and> height (current_pm (ex_world 200 200 (ex_image 20 20) (ex_ctx True position_center 1))) = 20
   \<and> (\<exists>N. \<forall>n\<ge>N. scale (ctx ((zoom_image str_to_num_dec (Some ''+900'') ^^ n)
          (ex_world 200 200 (ex_image 20 20) (ex_ctx True position_center 1)))) = 100)
   \<and> scale (ctx ((zoom_image str_to_num_dec (Some ''-900'') ^^ 3)
          (ex_world 200 200 (ex_image 20 20) (ex_ctx True position_center 1)))) = 1 / 2"
  using zoom_clamps [of "''+900''" str_to_num_dec
      "ex_world 200 200 (ex_image 20 20) (ex_ctx True position_center 1)" "''-900''"]
  by (simp add: str_to_num_dec_examples scale_names_def ex_world_sel ex_ctx_sel ex_current_pm)

subsection \<open>The range of the scale\<close>

lemma policy_scale_pos: "0 < sw \<Longrightarrow> 0 < sh \<Longrightarrow> 0 < policy_scale sc sw sh"
  by (cases sc) (simp_all add: policy_scale_def)

lemma policy_scale_le_1:
  "policy_scale scale_fit_optimal sw sh \<le> 1" "policy_scale scale_real_size sw sh \<le> 1"
  by (simp_all add: policy_scale_def)

lemma set_scale_pos:
  assumes "0 < ui_width w" "0 < ui_height w" "0 < width (current_pm w)" "0 < height (current_pm w)"
  shows "0 < scale (ctx (set_scale sc w))"
  unfolding set_scale_scale
  by (rule policy_scale_pos) (use assms in simp_all)

lemma zoom_percent_pos:
  assumes "0 < scale (ctx w)" "0 < width (current_pm w)" "percent \<noteq> 0"
  shows "0 < scale (ctx (zoom_percent percent w))"
proof (cases "0 < percent")
  case True
  let ?a = "scale (ctx w) + scale (ctx w) / 100 * real_of_int percent"
  have eq: "scale (ctx (zoom_percent percent w)) = min ?a 100"
    using True by (simp only: zoom_percent_scale if_True)
  have "0 < scale (ctx w) / 100 * real_of_int percent"
    using assms(1) True by (intro mult_pos_pos divide_pos_pos) simp_all
  then have "0 < ?a"
    using assms(1) by (rule add_pos_pos [rotated])
  then have "0 < min ?a 100"
    by (simp only: min_less_iff_conj) simp
  then show ?thesis
    by (simp only: eq)
next
  case False
  let ?a = "scale (ctx w) + scale (ctx w) / 100 * real_of_int percent"
  let ?m = "max (10 / real (width (current_pm w))) (10 / real (height (current_pm w)))"
  have eq: "scale (ctx (zoom_percent percent w)) = max ?a ?m"
    using False by (simp only: zoom_percent_scale if_False)
  have "0 < 10 / real (width (current_pm w))"
    using assms(2) by simp
  then have "0 < max ?a ?m"
    by (simp only: less_max_iff_disj) simp
  then show ?thesis
    by (simp only: eq)
qed

lemma zoom_percent_le_100:
  assumes "0 < scale (ctx w)" "0 < width (current_pm w)" "0 < height (current_pm w)"
    "0 < percent \<or> scale (ctx w) \<le> 100"
  shows "scale (ctx (zoom_percent percent w)) \<le> 100"
proof (cases "0 < percent")
  case True
  then show ?thesis by (simp add: zoom_percent_scale)
next
  case False
  let ?a = "scale (ctx w) + scale (ctx w) / 100 * real_of_int percent"
  let ?m = "max (10 / real (width (current_pm w))) (10 / real (height (current_pm w)))"
  have eq: "scale (ctx (zoom_percent percent w)) = max ?a ?m"
    using False by (simp only: zoom_percent_scale if_False)
  have s: "scale (ctx w) \<le> 100"
    using False assms(4) by simp
  have "real_of_int percent \<le> 0"
    using False by simp
  then have "scale (ctx w) / 100 * real_of_int percent \<le> 0"
    using assms(1) by (intro mult_nonneg_nonpos) simp_all
  then have a: "?a \<le> 100"
    using s by linarith
  have "1 \<le> real (width (current_pm w))" "1 \<le> real (height (current_pm w))"
    using assms(2,3) by simp_all
  then have "10 / real (width (current_pm w)) \<le> 100" "10 / real (height (current_pm w)) \<le> 100"
    by (simp_all add: divide_le_eq)
  then have "?m \<le> 100"
    by simp
  then have "max ?a ?m \<le> 100"
    using a by simp
  then show ?thesis
    by (simp only: eq)
qed

text \<open>
  Claim C1, amended. For a window and a current frame of positive width and height: the
  scale after \<open>set_scale\<close> is positive for every policy, and at most 1 for the policies
  optimal and real (fit, width, height and fill are not capped). After a zoom by a valid
  percentage from a positive scale the scale is positive, and it is at most 100 when the
  zoom is a zoom in or when the scale was at most 100 before.
\<close>

theorem scale_range_amended:
  assumes "0 < ui_width w" "0 < ui_height w" "0 < width (current_pm w)" "0 < height (current_pm w)"
  shows "0 < scale (ctx (set_scale sc w))
       \<and> (sc = scale_fit_optimal \<or> sc = scale_real_size \<longrightarrow> scale (ctx (set_scale sc w)) \<le> 1)
       \<and> (p \<noteq> [] \<and> p \<notin> set scale_names \<and> str_to_num p = Some percent
            \<and> percent \<noteq> 0 \<and> - 1000 < percent \<and> percent < 1000 \<and> 0 < scale (ctx w)
          \<longrightarrow> 0 < scale (ctx (zoom_image str_to_num (Some p) w))
              \<and> (0 < percent \<or> scale (ctx w) \<le> 100
                   \<longrightarrow> scale (ctx (zoom_image str_to_num (Some p) w)) \<le> 100))"
proof (intro conjI impI)
  show "0 < scale (ctx (set_scale sc w))"
    by (rule set_scale_pos [OF assms])
  show "scale (ctx (set_scale sc w)) \<le> 1" if "sc = scale_fit_optimal \<or> sc = scale_real_size"
    using that policy_scale_le_1 by (auto simp add: set_scale_scale)
next
  assume a: "p \<noteq> [] \<and> p \<notin> set scale_names \<and> str_to_num p = Some percent
            \<and> percent \<noteq> 0 \<and> - 1000 < percent \<and> percent < 1000 \<and> 0 < scale (ctx w)"
  then have eq: "scale (ctx (zoom_image str_to_num (Some p) w)) = scale (ctx (zoom_percent percent w))"
    using zoom_image_percent_scale [of p str_to_num percent w] by simp
  show "0 < scale (ctx (zoom_image str_to_num (Some p) w))"
    using a zoom_percent_pos [OF _ assms(3)] by (simp add: eq)
  show "scale (ctx (zoom_image str_to_num (Some p) w)) \<le> 100"
    if "0 < percent \<or> scale (ctx w) \<le> 100"
    using a that zoom_percent_le_100 [OF _ assms(3,4)] by (simp add: eq)
qed

lemma scale_image_named_scale:
  assumes "p \<noteq> []" "p \<in> set scale_names"
  shows "scale (ctx (scale_image (Some p) w)) =
           policy_scale (fixed_scale_of (nat (str_index scale_names p)))
             (1 / (real (width (current_pm w)) / real (ui_width w)))
             (1 / (real (height (current_pm w)) / real (ui_height w)))"
  using assms
  by (simp add: scale_image_def Let_def str_index_nonneg_iff app_redraw_sel set_scale_scale
      current_pm_def info_update_sel)

text \<open>
  Counterexample to claim C1 as the specification states it: in a window of 1024 by 1024
  pixels the policy fit gives a frame of 1 by 1 pixel the scale 1024.
\<close>

theorem scale_range_counterexample:
  "\<not> (0 < scale (ctx (scale_image (Some ''fit'')
            (ex_world 1024 1024 (ex_image 1 1) (ex_ctx True position_center 1))))
      \<and> scale (ctx (scale_image (Some ''fit'')
            (ex_world 1024 1024 (ex_image 1 1) (ex_ctx True position_center 1)))) \<le> 100)"
  by (simp add: scale_image_named_scale scale_names_def ex_world_sel ex_current_pm
      fixed_scale_of_def policy_scale_def)

theorem scale_range_amended_witness:
  "0 < ui_width (ex_world 200 200 (ex_image 8 8) (ex_ctx True position_center 25))
   \<and> str_to_num_dec ''-50'' = Some (- 50)
   \<and> 0 < scale (ctx (set_scale scale_fit_window
             (ex_world 200 200 (ex_image 8 8) (ex_ctx True position_center 25))))
   \<and> scale (ctx (set_scale scale_fit_optimal
             (ex_world 200 200 (ex_image 8 8) (ex_ctx True position_center 25)))) \<le> 1
   \<and> 0 < scale (ctx (zoom_image str_to_num_dec (Some ''-50'')
             (ex_world 200 200 (ex_image 8 8) (ex_ctx True position_center 25))))
   \<and> scale (ctx (zoom_image str_to_num_dec (Some ''-50'')
             (ex_world 200 200 (ex_image 8 8) (ex_ctx True position_center 25)))) \<le> 100"
  using scale_range_amended [of "ex_world 200 200 (ex_image 8 8) (ex_ctx True position_center 25)"
      scale_fit_window "''-50''" str_to_num_dec "- 50"]
    scale_range_amended [of "ex_world 200 200 (ex_image 8 8) (ex_ctx True position_center 25)"
      scale_fit_optimal "''-50''" str_to_num_dec "- 50"]
  by (simp add: str_to_num_dec_examples scale_names_def ex_world_sel ex_ctx_sel ex_current_pm)

subsection \<open>The pivot of a zoom\<close>

lemma fixup_ctx_x:
  "img_x (fixup_ctx force ww wh iw ih c) =
     fixup_axis force (fixed c) ww iw (img_x (switch_x ww iw c)) (img_x c)"
proof -
  define c1 where "c1 = (if force \<or> (fixed c \<and> iw \<le> ww) then switch_x ww iw c else c)"
  define c2 where "c2 = (if force \<or> (fixed c1 \<and> ih \<le> wh) then switch_y wh ih c1 else c1)"
  define c3 where "c3 = (if fixed c2 then bind_border ww wh iw ih c2 else c2)"
  have f: "fixup_ctx force ww wh iw ih c = keep_near ww wh iw ih c3"
    by (simp only: fixup_ctx_def Let_def c1_def c2_def c3_def)
  have x1: "img_x c1 = (if force \<or> (fixed c \<and> iw \<le> ww) then img_x (switch_x ww iw c) else img_x c)"
    by (simp only: c1_def if_distrib [of img_x])
  have fx1: "fixed c1 = fixed c"
    by (simp only: c1_def if_distrib [of fixed] switch_x_sel if_cancel)
  have x2: "img_x c2 = img_x c1"
    by (simp only: c2_def if_distrib [of img_x] switch_y_sel if_cancel)
  have fx2: "fixed c2 = fixed c"
    by (simp only: c2_def if_distrib [of fixed] switch_y_sel if_cancel fx1)
  have x3: "img_x c3 = (if fixed c
                then (if img_x c1 > 0 \<and> img_x c1 + iw > ww then 0
                      else if img_x c1 < 0 \<and> img_x c1 + iw < ww then ww - iw else img_x c1)
                else img_x c1)"
    by (simp only: c3_def if_distrib [of img_x] bind_border_x fx2 x2)
  show ?thesis
    by (simp only: f keep_near_x x3 x1 fixup_axis_def Let_def)
qed

lemma fixup_ctx_y:
  "img_y (fixup_ctx force ww wh iw ih c) =
     fixup_axis force (fixed c) wh ih (img_y (switch_y wh ih c)) (img_y c)"
proof -
  define c1 where "c1 = (if force \<or> (fixed c \<and> iw \<le> ww) then switch_x ww iw c else c)"
  define c2 where "c2 = (if force \<or> (fixed c1 \<and> ih \<le> wh) then switch_y wh ih c1 else c1)"
  define c3 where "c3 = (if fixed c2 then bind_border ww wh iw ih c2 else c2)"
  have f: "fixup_ctx force ww wh iw ih c = keep_near ww wh iw ih c3"
    by (simp only: fixup_ctx_def Let_def c1_def c2_def c3_def)
  have y1: "img_y c1 = img_y c"
    by (simp only: c1_def if_distrib [of img_y] switch_x_sel if_cancel)
  have fx1: "fixed c1 = fixed c"
    by (simp only: c1_def if_distrib [of fixed] switch_x_sel if_cancel)
  have p1: "position c1 = position c"
    by (simp only: c1_def if_distrib [of position] switch_x_sel if_cancel)
  have sw: "img_y (switch_y wh ih c1) = img_y (switch_y wh ih c)"
    by (cases "position c") (simp_all add: switch_y_def p1)
  have y2: "img_y c2 = (if force \<or> (fixed c \<and> ih \<le> wh) then img_y (switch_y wh ih c) else img_y c)"
    by (simp only: c2_def if_distrib [of img_y] fx1 sw y1)
  have fx2: "fixed c2 = fixed c"
    by (simp only: c2_def if_distrib [of fixed] switch_y_sel if_cancel fx1)
  have y3: "img_y c3 = (if fixed c
                then (if img_y c2 > 0 \<and> img_y c2 + ih > wh then 0
                      else if img_y c2 < 0 \<and> img_y c2 + ih < wh then wh - ih else img_y c2)
                else img_y c2)"
    by (simp only: c3_def if_distrib [of img_y] bind_border_y fx2)
  show ?thesis
    by (simp only: f keep_near_y y3 y2 fixup_axis_def Let_def)
qed

lemma c_trunc_error: "\<bar>r - real_of_int (c_trunc r)\<bar> < 1"
  by (simp add: c_trunc_def) linarith

lemma zoom_percent_xy:
  "img_x (ctx (zoom_percent percent w)) =
     c_trunc (real (ui_width w) / 2 - pivot_x w * scale (ctx (zoom_percent percent w)))"
  "img_y (ctx (zoom_percent percent w)) =
     c_trunc (real (ui_height w) / 2 - pivot_y w * scale (ctx (zoom_percent percent w)))"
  by (simp_all add: zoom_percent_def Let_def pivot_x_def pivot_y_def)

lemma rounds_within_bound: "rounds_within u r \<Longrightarrow> \<bar>r x - x\<bar> \<le> u * \<bar>x\<bar>"
  by (simp add: rounds_within_def)

lemma rounds_within_id: "0 \<le> u \<Longrightarrow> rounds_within u id"
  by (simp add: rounds_within_def)

lemma rounds_within_nonneg:
  assumes "rounds_within u r"
  shows "0 \<le> u"
  using rounds_within_bound [OF assms, of 1] by simp

lemma rounds_pos:
  assumes "rounds_within u r" "u < 1" "0 < x"
  shows "0 < r x"
proof -
  have "\<bar>r x - x\<bar> \<le> u * x"
    using rounds_within_bound [OF assms(1), of x] assms(3) by simp
  moreover have "u * x < 1 * x"
    using assms(2,3) by (rule mult_strict_right_mono)
  ultimately show ?thesis by simp
qed

lemma restore_error:
  fixes h s s' x u :: real
  assumes rd: "rounds_within u rd" and u: "u \<le> 1" and h: "0 \<le> h" and s: "0 < s" and s': "0 < s'"
  shows "\<bar>rd (h - rd (rd (rd (h / s) - rd (x / s)) * s')) - (h - (h / s - x / s) * s')\<bar>
           \<le> u * (h + 15 * ((h + \<bar>x\<bar>) / s) * s')"
proof -
  define A where "A = h / s"
  define B where "B = x / s"
  define K where "K = \<bar>A\<bar> + \<bar>B\<bar>"
  define a where "a = rd A"
  define b where "b = rd B"
  define c where "c = rd (a - b)"
  define m where "m = rd (c * s')"
  define r where "r = rd (h - m)"
  have u0: "0 \<le> u"
    by (rule rounds_within_nonneg [OF rd])
  have K0: "0 \<le> K"
    by (simp add: K_def)
  have Keq: "K = (h + \<bar>x\<bar>) / s"
    using h s by (simp add: K_def A_def B_def add_divide_distrib)
  define UK where "UK = u * K"
  have UK0: "0 \<le> UK" and UK1: "UK \<le> K"
    using u0 K0 u mult_right_mono [of u 1 K] by (simp_all add: UK_def)
  have ea: "\<bar>a - A\<bar> \<le> u * \<bar>A\<bar>" and eb: "\<bar>b - B\<bar> \<le> u * \<bar>B\<bar>"
    unfolding a_def b_def by (rule rounds_within_bound [OF rd])+
  have "u * \<bar>A\<bar> + u * \<bar>B\<bar> = UK"
    by (simp add: UK_def K_def algebra_simps)
  then have d1: "\<bar>(a - b) - (A - B)\<bar> \<le> UK"
    using ea eb by linarith
  have "\<bar>A - B\<bar> \<le> K"
    by (simp add: K_def)
  then have d2: "\<bar>a - b\<bar> \<le> 2 * K"
    using d1 UK1 by linarith
  have "\<bar>c - (a - b)\<bar> \<le> u * \<bar>a - b\<bar>"
    unfolding c_def by (rule rounds_within_bound [OF rd])
  moreover have "u * \<bar>a - b\<bar> \<le> u * (2 * K)"
    using d2 u0 by (rule mult_left_mono)
  ultimately have c1: "\<bar>c - (a - b)\<bar> \<le> 2 * UK"
    by (simp add: UK_def)
  have c2: "\<bar>c - (A - B)\<bar> \<le> 3 * UK"
    using c1 d1 by linarith
  have c3: "\<bar>c\<bar> \<le> 4 * K"
    using c1 d2 UK1 by linarith
  define W where "W = K * s'"
  define UW where "UW = u * W"
  have W0: "0 \<le> W"
    using K0 s' by (simp add: W_def)
  have UW0: "0 \<le> UW" and UW1: "UW \<le> W"
    using u0 W0 u mult_right_mono [of u 1 W] by (simp_all add: UW_def)
  have cs: "\<bar>c * s'\<bar> \<le> 4 * W"
    using mult_right_mono [OF c3, of s'] s' by (simp add: W_def abs_mult)
  have "\<bar>c * s' - (A - B) * s'\<bar> = \<bar>c - (A - B)\<bar> * s'"
    using s' by (simp add: left_diff_distrib [symmetric] abs_mult)
  also have "\<dots> \<le> (3 * UK) * s'"
    using c2 s' by (intro mult_right_mono) simp_all
  finally have e1: "\<bar>c * s' - (A - B) * s'\<bar> \<le> 3 * UW"
    by (simp add: UK_def UW_def W_def)
  have "\<bar>m - c * s'\<bar> \<le> u * \<bar>c * s'\<bar>"
    unfolding m_def by (rule rounds_within_bound [OF rd])
  moreover have "u * \<bar>c * s'\<bar> \<le> u * (4 * W)"
    using cs u0 by (rule mult_left_mono)
  ultimately have m1: "\<bar>m - c * s'\<bar> \<le> 4 * UW"
    by (simp add: UW_def)
  have m2: "\<bar>m - (A - B) * s'\<bar> \<le> 7 * UW"
    using m1 e1 by linarith
  have m3: "\<bar>m\<bar> \<le> 8 * W"
    using m1 cs UW1 by linarith
  have "\<bar>r - (h - m)\<bar> \<le> u * \<bar>h - m\<bar>"
    unfolding r_def by (rule rounds_within_bound [OF rd])
  moreover have "\<bar>h - m\<bar> \<le> h + 8 * W"
    using m3 h by linarith
  then have "u * \<bar>h - m\<bar> \<le> u * (h + 8 * W)"
    using u0 by (rule mult_left_mono)
  ultimately have r1: "\<bar>r - (h - m)\<bar> \<le> u * h + 8 * UW"
    by (simp add: UW_def algebra_simps)
  have "\<bar>r - (h - (A - B) * s')\<bar> \<le> u * h + 15 * UW"
    using r1 m2 by linarith
  moreover have "u * h + 15 * UW = u * (h + 15 * ((h + \<bar>x\<bar>) / s) * s')"
    by (simp add: UW_def W_def Keq algebra_simps)
  ultimately show ?thesis
    by (simp only: r_def m_def c_def a_def b_def A_def B_def)
qed

lemma pivot_shift_fl:
  fixes h s s' x u :: real
  assumes rd: "rounds_within u rd" and u: "u \<le> 1" and h: "0 \<le> h" and s: "0 < s" and s': "0 < s'"
    and xi: "xi = c_trunc (rd (h - rd (rd (rd (h / s) - rd (x / s)) * s')))"
  shows "\<bar>(h / s' - real_of_int xi / s') - (h / s - x / s)\<bar> * s' < 1 + rounding_allowance u h x s s'"
proof -
  define r where "r = rd (h - rd (rd (rd (h / s) - rd (x / s)) * s'))"
  define q where "q = h / s - x / s"
  have e: "\<bar>r - (h - q * s')\<bar> \<le> rounding_allowance u h x s s'"
    unfolding r_def q_def rounding_allowance_def by (rule restore_error [OF rd u h s s'])
  have t: "\<bar>r - real_of_int xi\<bar> < 1"
    unfolding xi r_def by (rule c_trunc_error)
  have "((h / s' - real_of_int xi / s') - q) * s' = h - real_of_int xi - q * s'"
    using s' by (simp add: field_simps)
  moreover have "\<bar>(h / s' - real_of_int xi / s') - q\<bar> * s' = \<bar>((h / s' - real_of_int xi / s') - q) * s'\<bar>"
    using s' by (simp add: abs_mult)
  ultimately have "\<bar>(h / s' - real_of_int xi / s') - q\<bar> * s' = \<bar>h - real_of_int xi - q * s'\<bar>"
    by simp
  also have "\<dots> < 1 + rounding_allowance u h x s s'"
    using e t by linarith
  finally show ?thesis
    by (simp only: q_def)
qed

lemma zoom_percent_fl_world:
  "ui_width (zoom_percent_fl rd rf percent w) = ui_width w"
  "ui_height (zoom_percent_fl rd rf percent w) = ui_height w"
  "current (zoom_percent_fl rd rf percent w) = current w"
  by (simp_all add: zoom_percent_fl_def Let_def)

lemma zoom_percent_fl_scale:
  "scale (ctx (zoom_percent_fl rd rf percent w)) =
     (if percent > 0
      then min (rd (scale (ctx w) + rf (rd (rd (scale (ctx w) / 100) * real_of_int percent)))) 100
      else max (rd (scale (ctx w) + rf (rd (rd (scale (ctx w) / 100) * real_of_int percent))))
             (max (rf (10 / real (width (current_pm w)))) (rf (10 / real (height (current_pm w))))))"
  by (simp add: zoom_percent_fl_def Let_def MAX_SCALE_def MIN_SCALE_def min_def max_def)

lemma zoom_percent_fl_xy:
  "img_x (ctx (zoom_percent_fl rd rf percent w)) =
     c_trunc (rd (real (ui_width w) / 2
        - rd (rd (rd (real (ui_width w) / 2 / scale (ctx w)) - rd (real_of_int (img_x (ctx w)) / scale (ctx w)))
              * scale (ctx (zoom_percent_fl rd rf percent w)))))"
  "img_y (ctx (zoom_percent_fl rd rf percent w)) =
     c_trunc (rd (real (ui_height w) / 2
        - rd (rd (rd (real (ui_height w) / 2 / scale (ctx w)) - rd (real_of_int (img_y (ctx w)) / scale (ctx w)))
              * scale (ctx (zoom_percent_fl rd rf percent w)))))"
  by (simp_all add: zoom_percent_fl_def Let_def)

lemma zoom_percent_fl_pos:
  assumes rd: "rounds_within u rd" "u < 1" and rf: "rounds_within v rf" "v < 1"
    and s: "0 < scale (ctx w)" and wd: "0 < width (current_pm w)" and p: "percent \<noteq> 0"
  shows "0 < scale (ctx (zoom_percent_fl rd rf percent w))"
proof (cases "0 < percent")
  case True
  let ?step = "rf (rd (rd (scale (ctx w) / 100) * real_of_int percent))"
  have eq: "scale (ctx (zoom_percent_fl rd rf percent w)) = min (rd (scale (ctx w) + ?step)) 100"
    using True by (simp only: zoom_percent_fl_scale if_True)
  have "0 < scale (ctx w) / 100"
    using s by simp
  then have "0 < rd (scale (ctx w) / 100)"
    by (rule rounds_pos [OF rd])
  then have "0 < rd (scale (ctx w) / 100) * real_of_int percent"
    using True by (intro mult_pos_pos) simp_all
  then have "0 < rd (rd (scale (ctx w) / 100) * real_of_int percent)"
    by (rule rounds_pos [OF rd])
  then have "0 < ?step"
    by (rule rounds_pos [OF rf])
  then have "0 < scale (ctx w) + ?step"
    using s by (rule add_pos_pos [rotated])
  then have "0 < rd (scale (ctx w) + ?step)"
    by (rule rounds_pos [OF rd])
  then have "0 < min (rd (scale (ctx w) + ?step)) 100"
    by simp
  then show ?thesis
    by (simp only: eq)
next
  case False
  let ?a = "rd (scale (ctx w) + rf (rd (rd (scale (ctx w) / 100) * real_of_int percent)))"
  let ?m = "max (rf (10 / real (width (current_pm w)))) (rf (10 / real (height (current_pm w))))"
  have eq: "scale (ctx (zoom_percent_fl rd rf percent w)) = max ?a ?m"
    using False by (simp only: zoom_percent_fl_scale if_False)
  have "0 < 10 / real (width (current_pm w))"
    using wd by simp
  then have "0 < rf (10 / real (width (current_pm w)))"
    by (rule rounds_pos [OF rf])
  then have "0 < max ?a ?m"
    by (simp only: less_max_iff_disj) simp
  then show ?thesis
    by (simp only: eq)
qed

lemma zoom_image_fl_percent:
  assumes "p \<noteq> []" "p \<notin> set scale_names" "str_to_num p = Some percent"
    "percent \<noteq> 0" "- 1000 < percent" "percent < 1000"
  shows "zoom_image_fl rd rf str_to_num (Some p) w =
           app_redraw (info_update info_scale ''%.0f%%''
             [ArgReal (rd (scale (ctx (zoom_percent_fl rd rf percent w)) * 100))]
             (fixup_position False (zoom_percent_fl rd rf percent w)))"
  using assms
  by (simp add: zoom_image_fl_def Let_def str_index_neg fixup_position_sel)

lemma zoom_percent_fl_exact: "zoom_percent_fl id id percent w = zoom_percent percent w"
  by (simp only: zoom_percent_fl_def zoom_percent_def id_apply)

lemma zoom_image_fl_exact:
  "zoom_image_fl id id str_to_num params w = zoom_image str_to_num params w"
  by (simp only: zoom_image_fl_def zoom_image_def zoom_percent_fl_exact id_apply)

text \<open>
  Claim C2, amended. Let the operations in \<^verbatim>\<open>double\<close> and \<^verbatim>\<open>float\<close> round with a relative error
  of at most \<open>u\<close> and \<open>v\<close>, both below 1. A zoom by a valid percentage from a positive scale
  restores the position from the pivot and truncates it to an integer. When the non-forced
  fixup that ends \<open>zoom_image\<close> leaves that position where it is, the image-space point
  under the window centre moves, measured in window pixels, by less than one pixel plus the
  rounding allowance on each axis.
\<close>

theorem zoom_pivot_amended:
  assumes "rounds_within u rd" "u < 1" "rounds_within v rf" "v < 1"
    and "p \<noteq> []" "p \<notin> set scale_names" "str_to_num p = Some percent"
    and "percent \<noteq> 0" "- 1000 < percent" "percent < 1000"
    and "0 < scale (ctx w)" "0 < width (current_pm w)"
    and "img_x (ctx (fixup_position False (zoom_percent_fl rd rf percent w)))
           = img_x (ctx (zoom_percent_fl rd rf percent w))"
    and "img_y (ctx (fixup_position False (zoom_percent_fl rd rf percent w)))
           = img_y (ctx (zoom_percent_fl rd rf percent w))"
  shows "\<bar>pivot_x (zoom_image_fl rd rf str_to_num (Some p) w) - pivot_x w\<bar>
           * scale (ctx (zoom_image_fl rd rf str_to_num (Some p) w))
         < 1 + rounding_allowance u (real (ui_width w) / 2) (real_of_int (img_x (ctx w)))
                 (scale (ctx w)) (scale (ctx (zoom_image_fl rd rf str_to_num (Some p) w)))
       \<and> \<bar>pivot_y (zoom_image_fl rd rf str_to_num (Some p) w) - pivot_y w\<bar>
           * scale (ctx (zoom_image_fl rd rf str_to_num (Some p) w))
         < 1 + rounding_allowance u (real (ui_height w) / 2) (real_of_int (img_y (ctx w)))
                 (scale (ctx w)) (scale (ctx (zoom_image_fl rd rf str_to_num (Some p) w)))"
proof -
  let ?z = "zoom_image_fl rd rf str_to_num (Some p) w"
  let ?w1 = "zoom_percent_fl rd rf percent w"
  have z: "?z = app_redraw (info_update info_scale ''%.0f%%''
             [ArgReal (rd (scale (ctx ?w1) * 100))] (fixup_position False ?w1))"
    using assms(5-10) by (rule zoom_image_fl_percent [of p str_to_num percent])
  have sc: "scale (ctx ?z) = scale (ctx ?w1)"
    by (simp add: z app_redraw_sel info_update_sel fixup_position_sel)
  have pos: "0 < scale (ctx ?w1)"
    using assms(1-4,11,12,8) by (rule zoom_percent_fl_pos)
  have x: "img_x (ctx ?z) = img_x (ctx ?w1)" and y: "img_y (ctx ?z) = img_y (ctx ?w1)"
    using assms(13,14) by (simp_all add: z app_redraw_sel info_update_sel)
  have wd: "ui_width ?z = ui_width w" "ui_height ?z = ui_height w"
    by (simp_all add: z app_redraw_sel info_update_sel fixup_position_world zoom_percent_fl_world)
  have u1: "u \<le> 1"
    using assms(2) by simp
  have hx: "0 \<le> real (ui_width w) / 2" and hy: "0 \<le> real (ui_height w) / 2"
    by simp_all
  have px: "pivot_x ?z = (real (ui_width w) / 2) / scale (ctx ?w1)
              - real_of_int (img_x (ctx ?w1)) / scale (ctx ?w1)"
    by (simp only: pivot_x_def sc x wd)
  have py: "pivot_y ?z = (real (ui_height w) / 2) / scale (ctx ?w1)
              - real_of_int (img_y (ctx ?w1)) / scale (ctx ?w1)"
    by (simp only: pivot_y_def sc y wd)
  have "\<bar>pivot_x ?z - pivot_x w\<bar> * scale (ctx ?w1)
          < 1 + rounding_allowance u (real (ui_width w) / 2) (real_of_int (img_x (ctx w)))
                  (scale (ctx w)) (scale (ctx ?w1))"
    unfolding px pivot_x_def [of w]
    by (rule pivot_shift_fl [where rd = rd and u = u and h = "real (ui_width w) / 2"
          and s = "scale (ctx w)" and s' = "scale (ctx ?w1)" and xi = "img_x (ctx ?w1)"
          and x = "real_of_int (img_x (ctx w))",
          OF assms(1) u1 hx assms(11) pos zoom_percent_fl_xy(1)])
  moreover have "\<bar>pivot_y ?z - pivot_y w\<bar> * scale (ctx ?w1)
          < 1 + rounding_allowance u (real (ui_height w) / 2) (real_of_int (img_y (ctx w)))
                  (scale (ctx w)) (scale (ctx ?w1))"
    unfolding py pivot_y_def [of w]
    by (rule pivot_shift_fl [where rd = rd and u = u and h = "real (ui_height w) / 2"
          and s = "scale (ctx w)" and s' = "scale (ctx ?w1)" and xi = "img_y (ctx ?w1)"
          and x = "real_of_int (img_y (ctx w))",
          OF assms(1) u1 hy assms(11) pos zoom_percent_fl_xy(2)])
  ultimately show ?thesis
    by (simp only: sc)
qed

lemma zoom_percent_current_pm: "current_pm (zoom_percent percent w) = current_pm w"
  by (simp add: current_pm_def zoom_percent_world zoom_percent_sel)

lemma ex_zoom_out_50:
  fixes fx pos
  defines "W \<equiv> ex_world 200 200 (ex_image 8 8) (ex_ctx fx pos 25)"
  shows "pivot_x W = 4" "pivot_y W = 4"
    "scale (ctx (zoom_percent (- 50) W)) = 25 / 2"
    "img_x (ctx (zoom_percent (- 50) W)) = 50"
    "img_y (ctx (zoom_percent (- 50) W)) = 50"
    "scaled_width (zoom_percent (- 50) W) = 100"
    "scaled_height (zoom_percent (- 50) W) = 100"
proof -
  show px: "pivot_x W = 4" and py: "pivot_y W = 4"
    by (simp_all add: W_def pivot_x_def pivot_y_def ex_world_sel ex_ctx_sel)
  show sc: "scale (ctx (zoom_percent (- 50) W)) = 25 / 2"
    by (simp add: zoom_percent_scale W_def ex_world_sel ex_ctx_sel ex_current_pm)
  show "img_x (ctx (zoom_percent (- 50) W)) = 50"
    by (simp add: zoom_percent_xy px sc) (simp add: W_def ex_world_sel c_trunc_def)
  show "img_y (ctx (zoom_percent (- 50) W)) = 50"
    by (simp add: zoom_percent_xy py sc) (simp add: W_def ex_world_sel c_trunc_def)
  show "scaled_width (zoom_percent (- 50) W) = 100"
    by (simp add: scaled_width_def zoom_percent_current_pm sc)
       (simp add: W_def ex_current_pm c_trunc_def)
  show "scaled_height (zoom_percent (- 50) W) = 100"
    by (simp add: scaled_height_def zoom_percent_current_pm sc)
       (simp add: W_def ex_current_pm c_trunc_def)
qed

lemma ex_zoom_out_50_image:
  "zoom_image str_to_num_dec (Some ''-50'') w =
     app_redraw (info_update info_scale ''%.0f%%''
       [ArgReal (scale (ctx (zoom_percent (- 50) w)) * 100)]
       (fixup_position False (zoom_percent (- 50) w)))"
  by (rule zoom_image_percent) (simp_all add: str_to_num_dec_examples scale_names_def)

text \<open>
  Counterexample to claim C2 as the specification states it, where the fixup moves the
  image: a frame of 8 by 8 pixels at scale 25 fills a window of 200 by 200 pixels; in fixed
  mode with the anchor top left, a zoom by \<open>-50\<close> leaves the image of 100 by 100 pixels
  at the top left corner, and the point under the window centre goes from 4 to 8. Every
  floating-point operation is exact at this input, so nothing is rounded.
\<close>

theorem zoom_pivot_counterexample:
  "pivot_x (ex_world 200 200 (ex_image 8 8) (ex_ctx True position_top_left 25)) = 4
   \<and> pivot_x (zoom_image str_to_num_dec (Some ''-50'')
        (ex_world 200 200 (ex_image 8 8) (ex_ctx True position_top_left 25))) = 8"
proof -
  let ?W = "ex_world 200 200 (ex_image 8 8) (ex_ctx True position_top_left 25)"
  let ?w1 = "zoom_percent (- 50) ?W"
  have fx: "fixed (ctx ?w1)" and pos: "position (ctx ?w1) = position_top_left"
    by (simp_all add: zoom_percent_sel ex_world_sel ex_ctx_sel)
  have "img_x (ctx (fixup_position False ?w1)) = 0"
    by (simp add: fixup_position_ctx fixup_ctx_x ex_zoom_out_50 fx zoom_percent_world
        ex_world_sel fixup_axis_def switch_x_def pos)
  then have "pivot_x (zoom_image str_to_num_dec (Some ''-50'') ?W) = 8"
    by (simp add: ex_zoom_out_50_image pivot_x_def app_redraw_sel info_update_sel
        fixup_position_world fixup_position_sel zoom_percent_world ex_zoom_out_50 ex_world_sel)
  then show ?thesis
    by (simp add: ex_zoom_out_50)
qed

lemma ex_rd_rounds: "rounds_within (1 / 2 ^ 53) ex_rd"
  by (simp add: rounds_within_def ex_rd_def algebra_simps abs_mult)

lemma ex_zoom_in_100:
  defines "W \<equiv> ex_world 100 100 (ex_image 400 400)
                 ((ex_ctx False position_center 3)\<lparr>img_x := 30, img_y := 30\<rparr>)"
  shows "scale (ctx W) = 3" "img_x (ctx W) = 30" "img_y (ctx W) = 30"
    "ui_width W = 100" "ui_height W = 100" "\<not> fixed (ctx W)"
    "current_pm W = \<lparr>width = 400, height = 400\<rparr>"
  by (simp_all add: W_def ex_world_sel ex_ctx_def current_pm_def ex_image_sel)

lemma ex_zoom_in_100_scale:
  "scale (ctx (zoom_percent_fl ex_rd id 100 (ex_world 100 100 (ex_image 400 400)
                 ((ex_ctx False position_center 3)\<lparr>img_x := 30, img_y := 30\<rparr>))))
     = ex_rd (3 + ex_rd (ex_rd (3 / 100) * 100))"
  by (simp add: zoom_percent_fl_scale ex_zoom_in_100 ex_rd_def)

lemma ex_zoom_in_100_x:
  "img_x (ctx (zoom_percent_fl ex_rd id 100 (ex_world 100 100 (ex_image 400 400)
                 ((ex_ctx False position_center 3)\<lparr>img_x := 30, img_y := 30\<rparr>)))) = 9"
  by (simp add: zoom_percent_fl_xy ex_zoom_in_100_scale ex_zoom_in_100)
     (simp add: ex_rd_def c_trunc_def)

lemma ex_zoom_in_100_y:
  "img_y (ctx (zoom_percent_fl ex_rd id 100 (ex_world 100 100 (ex_image 400 400)
                 ((ex_ctx False position_center 3)\<lparr>img_x := 30, img_y := 30\<rparr>)))) = 9"
  by (simp add: zoom_percent_fl_xy ex_zoom_in_100_scale ex_zoom_in_100)
     (simp add: ex_rd_def c_trunc_def)

lemma zoom_percent_fl_sel:
  "frame (ctx (zoom_percent_fl rd rf percent w)) = frame (ctx w)"
  "fixed (ctx (zoom_percent_fl rd rf percent w)) = fixed (ctx w)"
  "position (ctx (zoom_percent_fl rd rf percent w)) = position (ctx w)"
  by (simp_all add: zoom_percent_fl_def Let_def)

lemma zoom_percent_fl_current_pm: "current_pm (zoom_percent_fl rd rf percent w) = current_pm w"
  by (simp add: current_pm_def zoom_percent_fl_world zoom_percent_fl_sel)

lemma ex_zoom_in_100_size:
  "scaled_width (zoom_percent_fl ex_rd id 100 (ex_world 100 100 (ex_image 400 400)
                 ((ex_ctx False position_center 3)\<lparr>img_x := 30, img_y := 30\<rparr>))) = 2400"
  "scaled_height (zoom_percent_fl ex_rd id 100 (ex_world 100 100 (ex_image 400 400)
                 ((ex_ctx False position_center 3)\<lparr>img_x := 30, img_y := 30\<rparr>))) = 2400"
  by (simp_all add: scaled_width_def scaled_height_def zoom_percent_fl_current_pm
        ex_zoom_in_100_scale ex_zoom_in_100)
     (simp_all add: ex_rd_def c_trunc_def)

lemma ex_zoom_in_100_unmoved:
  "img_x (ctx (fixup_position False (zoom_percent_fl ex_rd id 100
      (ex_world 100 100 (ex_image 400 400)
         ((ex_ctx False position_center 3)\<lparr>img_x := 30, img_y := 30\<rparr>))))) = 9"
  "img_y (ctx (fixup_position False (zoom_percent_fl ex_rd id 100
      (ex_world 100 100 (ex_image 400 400)
         ((ex_ctx False position_center 3)\<lparr>img_x := 30, img_y := 30\<rparr>))))) = 9"
  by (simp_all add: fixup_position_ctx fixup_ctx_x fixup_ctx_y fixup_axis_def
      zoom_percent_fl_sel zoom_percent_fl_world ex_zoom_in_100 ex_zoom_in_100_x
      ex_zoom_in_100_y ex_zoom_in_100_size)

lemma str_to_num_dec_100: "str_to_num_dec ''+100'' = Some 100"
  by (simp add: str_to_num_dec_def)

text \<open>
  The theorem at a window of 100 by 100 pixels, a frame of 400 by 400 pixels at scale 3 and
  position \<open>(30, 30)\<close>, without fixed mode, zoomed by \<open>+100\<close>, where every operation in
  \<^verbatim>\<open>double\<close> rounds away from zero: the restored coordinate is a little below 10 and is
  truncated to 9.
\<close>

theorem zoom_pivot_amended_witness:
  "rounds_within (1 / 2 ^ 53) ex_rd
   \<and> str_to_num_dec ''+100'' = Some 100
   \<and> img_x (ctx (zoom_image_fl ex_rd id str_to_num_dec (Some ''+100'')
        (ex_world 100 100 (ex_image 400 400)
           ((ex_ctx False position_center 3)\<lparr>img_x := 30, img_y := 30\<rparr>)))) = 9
   \<and> \<bar>pivot_x (zoom_image_fl ex_rd id str_to_num_dec (Some ''+100'')
          (ex_world 100 100 (ex_image 400 400)
             ((ex_ctx False position_center 3)\<lparr>img_x := 30, img_y := 30\<rparr>)))
        - pivot_x (ex_world 100 100 (ex_image 400 400)
             ((ex_ctx False position_center 3)\<lparr>img_x := 30, img_y := 30\<rparr>))\<bar>
       * scale (ctx (zoom_image_fl ex_rd id str_to_num_dec (Some ''+100'')
          (ex_world 100 100 (ex_image 400 400)
             ((ex_ctx False position_center 3)\<lparr>img_x := 30, img_y := 30\<rparr>))))
       < 1 + rounding_allowance (1 / 2 ^ 53) 50 30 3
           (scale (ctx (zoom_image_fl ex_rd id str_to_num_dec (Some ''+100'')
              (ex_world 100 100 (ex_image 400 400)
                 ((ex_ctx False position_center 3)\<lparr>img_x := 30, img_y := 30\<rparr>)))))
   \<and> \<bar>pivot_y (zoom_image_fl ex_rd id str_to_num_dec (Some ''+100'')
          (ex_world 100 100 (ex_image 400 400)
             ((ex_ctx False position_center 3)\<lparr>img_x := 30, img_y := 30\<rparr>)))
        - pivot_y (ex_world 100 100 (ex_image 400 400)
             ((ex_ctx False position_center 3)\<lparr>img_x := 30, img_y := 30\<rparr>))\<bar>
       * scale (ctx (zoom_image_fl ex_rd id str_to_num_dec (Some ''+100'')
          (ex_world 100 100 (ex_image 400 400)
             ((ex_ctx False position_center 3)\<lparr>img_x := 30, img_y := 30\<rparr>))))
       < 1 + rounding_allowance (1 / 2 ^ 53) 50 30 3
           (scale (ctx (zoom_image_fl ex_rd id str_to_num_dec (Some ''+100'')
              (ex_world 100 100 (ex_image 400 400)
                 ((ex_ctx False position_center 3)\<lparr>img_x := 30, img_y := 30\<rparr>)))))"
proof -
  let ?W = "ex_world 100 100 (ex_image 400 400)
              ((ex_ctx False position_center 3)\<lparr>img_x := 30, img_y := 30\<rparr>)"
  have v: "rounds_within (1 / 2 ^ 24) id"
    by (simp add: rounds_within_id)
  have n: "''+100'' \<noteq> []" "''+100'' \<notin> set scale_names" "(100::int) \<noteq> 0"
    "- 1000 < (100::int)" "(100::int) < 1000" "(1::real) / 2 ^ 53 < 1" "(1::real) / 2 ^ 24 < 1"
    by (simp_all add: scale_names_def)
  have s: "0 < scale (ctx ?W)" "0 < width (current_pm ?W)"
    by (simp_all add: ex_zoom_in_100)
  have ux: "img_x (ctx (fixup_position False (zoom_percent_fl ex_rd id 100 ?W)))
              = img_x (ctx (zoom_percent_fl ex_rd id 100 ?W))"
    and uy: "img_y (ctx (fixup_position False (zoom_percent_fl ex_rd id 100 ?W)))
              = img_y (ctx (zoom_percent_fl ex_rd id 100 ?W))"
    by (simp_all only: ex_zoom_in_100_unmoved ex_zoom_in_100_x ex_zoom_in_100_y)
  have z: "img_x (ctx (zoom_image_fl ex_rd id str_to_num_dec (Some ''+100'') ?W)) = 9"
    using n(1-5)
    by (simp add: zoom_image_fl_percent [of "''+100''" str_to_num_dec 100] str_to_num_dec_100
        app_redraw_sel info_update_sel ex_zoom_in_100_unmoved)
  show ?thesis
    using zoom_pivot_amended [where rd = ex_rd and rf = id and u = "1 / 2 ^ 53"
        and v = "1 / 2 ^ 24" and p = "''+100''" and str_to_num = str_to_num_dec
        and percent = 100 and w = ?W,
        OF ex_rd_rounds n(6) v n(7) n(1,2) str_to_num_dec_100 n(3,4,5) s ux uy]
      ex_rd_rounds str_to_num_dec_100 z
    by (simp only: ex_zoom_in_100 of_int_numeral of_nat_numeral simp_thms) simp
qed

subsection \<open>Invalid parameters\<close>

lemma move_step_invalid:
  assumes "case str_to_num p of None \<Rightarrow> True | Some v \<Rightarrow> v \<le> 0 \<or> 1000 < v"
  shows "move_step str_to_num (Some p) w =
           (10, fprintf_stderr (''Invalid move step: '' @ quoted_arg) [ArgStr p] w)"
  using assms by (auto simp add: move_step_def split: option.splits)

lemma move_step_default: "move_step str_to_num None w = (10, w)"
  by (simp add: move_step_def)

lemma move_image_invalid:
  assumes "case str_to_num p of None \<Rightarrow> True | Some v \<Rightarrow> v \<le> 0 \<or> 1000 < v"
  shows "move_image str_to_num horizontal positive (Some p) w =
           move_image str_to_num horizontal positive None
             (fprintf_stderr (''Invalid move step: '' @ quoted_arg) [ArgStr p] w)"
  by (simp only: move_image_def move_step_invalid [of str_to_num p, OF assms] move_step_default
      fprintf_stderr_sel)

lemma zoom_image_invalid:
  assumes "p \<noteq> []" "p \<notin> set scale_names"
    "case str_to_num p of None \<Rightarrow> True | Some v \<Rightarrow> v = 0 \<or> v \<le> - 1000 \<or> 1000 \<le> v"
  shows "zoom_image str_to_num (Some p) w =
           app_redraw (info_update info_scale ''%.0f%%'' [ArgReal (scale (ctx w) * 100)]
             (fprintf_stderr (''Invalid zoom operation: '' @ quoted_arg) [ArgStr p] w))"
  using assms
  by (auto simp add: zoom_image_def Let_def str_index_neg fprintf_stderr_sel split: option.splits)

lemma scale_image_invalid:
  assumes "p \<noteq> []" "p \<notin> set scale_names"
  shows "scale_image (Some p) w =
           fprintf_stderr (''Invalid scale operation: '' @ quoted_arg) [ArgStr p] w"
  using assms by (simp add: scale_image_def Let_def str_index_neg)

text \<open>
  Claim C4, amended. A zoom parameter that is not empty, is no policy name and is not read
  as a nonzero percentage between \<open>-1000\<close> and \<open>1000\<close> is reported on the diagnostic
  channel and leaves the viewer context unchanged; an empty zoom parameter changes nothing
  and reports nothing. A scale parameter that is not empty and is no policy name is
  reported and changes nothing else. A move step that is not read as a number from 1 to
  1000 is reported, and the move then goes on as a move without parameter, by the default
  step.
\<close>

theorem invalid_parameter_amended:
  "(p \<noteq> [] \<and> p \<notin> set scale_names
      \<and> (case str_to_num p of None \<Rightarrow> True | Some v \<Rightarrow> v = 0 \<or> v \<le> - 1000 \<or> 1000 \<le> v)
    \<longrightarrow> ctx (zoom_image str_to_num (Some p) w) = ctx w
        \<and> stderr_log (zoom_image str_to_num (Some p) w)
            = stderr_log w @ [(''Invalid zoom operation: '' @ quoted_arg, [ArgStr p])])
   \<and> zoom_image str_to_num (Some []) w = w
   \<and> (p \<noteq> [] \<and> p \<notin> set scale_names
    \<longrightarrow> scale_image (Some p) w
          = fprintf_stderr (''Invalid scale operation: '' @ quoted_arg) [ArgStr p] w)
   \<and> ((case str_to_num p of None \<Rightarrow> True | Some v \<Rightarrow> v \<le> 0 \<or> 1000 < v)
    \<longrightarrow> move_image str_to_num horizontal positive (Some p) w
          = move_image str_to_num horizontal positive None
              (fprintf_stderr (''Invalid move step: '' @ quoted_arg) [ArgStr p] w))"
proof (intro conjI impI)
  assume a: "p \<noteq> [] \<and> p \<notin> set scale_names
      \<and> (case str_to_num p of None \<Rightarrow> True | Some v \<Rightarrow> v = 0 \<or> v \<le> - 1000 \<or> 1000 \<le> v)"
  then have z: "zoom_image str_to_num (Some p) w =
           app_redraw (info_update info_scale ''%.0f%%'' [ArgReal (scale (ctx w) * 100)]
             (fprintf_stderr (''Invalid zoom operation: '' @ quoted_arg) [ArgStr p] w))"
    using zoom_image_invalid [of p str_to_num w] by simp
  show "ctx (zoom_image str_to_num (Some p) w) = ctx w"
    by (simp add: z app_redraw_sel info_update_sel fprintf_stderr_sel)
  show "stderr_log (zoom_image str_to_num (Some p) w)
            = stderr_log w @ [(''Invalid zoom operation: '' @ quoted_arg, [ArgStr p])]"
    by (simp add: z app_redraw_sel info_update_sel fprintf_stderr_sel)
next
  show "zoom_image str_to_num (Some []) w = w"
    by (simp add: zoom_image_def)
next
  assume "p \<noteq> [] \<and> p \<notin> set scale_names"
  then show "scale_image (Some p) w
          = fprintf_stderr (''Invalid scale operation: '' @ quoted_arg) [ArgStr p] w"
    using scale_image_invalid by blast
next
  assume "case str_to_num p of None \<Rightarrow> True | Some v \<Rightarrow> v \<le> 0 \<or> 1000 < v"
  then show "move_image str_to_num horizontal positive (Some p) w
          = move_image str_to_num horizontal positive None
              (fprintf_stderr (''Invalid move step: '' @ quoted_arg) [ArgStr p] w)"
    by (rule move_image_invalid)
qed

lemma ex_move_default:
  "img_x (ctx (move_image str_to_num True False None
      (fprintf_stderr fmt args (ex_world 100 100 (ex_image 8 8) (ex_ctx True position_top_left 25)))))
     = - 10"
proof -
  let ?W = "fprintf_stderr fmt args (ex_world 100 100 (ex_image 8 8) (ex_ctx True position_top_left 25))"
  let ?w2 = "?W\<lparr>ctx := (ex_ctx True position_top_left 25)\<lparr>img_x := - 10\<rparr>\<rparr>"
  have x: "img_x (ctx (fixup_position False ?w2)) = - 10"
    by (simp add: fixup_position_ctx fixup_ctx_x fixup_axis_def scaled_width_def current_pm_def
        fprintf_stderr_sel ex_world_sel ex_ctx_sel ex_image_sel c_trunc_def Let_def)
  show ?thesis
    by (simp add: move_image_def move_step_default Let_def x app_redraw_sel fprintf_stderr_sel
        ex_world_sel ex_ctx_sel)
qed

text \<open>
  Counterexample to claim C4 as the specification states it, for the move step: in fixed
  mode, with an image of 200 by 200 pixels at position 0 in a window of 100 by 100 pixels,
  a move in the negative direction with the step \<open>abc\<close> puts the image at \<open>-10\<close>.
\<close>

theorem invalid_parameter_counterexample:
  "str_to_num_dec ''abc'' = None
   \<and> img_x (ctx (ex_world 100 100 (ex_image 8 8) (ex_ctx True position_top_left 25))) = 0
   \<and> img_x (ctx (move_image str_to_num_dec True False (Some ''abc'')
        (ex_world 100 100 (ex_image 8 8) (ex_ctx True position_top_left 25)))) = - 10"
  by (simp add: move_image_invalid str_to_num_dec_examples ex_move_default ex_world_sel ex_ctx_sel)

theorem invalid_parameter_amended_witness:
  "str_to_num_dec ''abc'' = None
   \<and> ctx (zoom_image str_to_num_dec (Some ''abc'')
        (ex_world 100 100 (ex_image 8 8) (ex_ctx True position_top_left 25)))
       = ex_ctx True position_top_left 25
   \<and> stderr_log (zoom_image str_to_num_dec (Some ''abc'')
        (ex_world 100 100 (ex_image 8 8) (ex_ctx True position_top_left 25)))
       = [(''Invalid zoom operation: '' @ quoted_arg, [ArgStr ''abc''])]
   \<and> ctx (scale_image (Some ''abc'')
        (ex_world 100 100 (ex_image 8 8) (ex_ctx True position_top_left 25)))
       = ex_ctx True position_top_left 25
   \<and> stderr_log (move_image str_to_num_dec True False (Some ''abc'')
        (ex_world 100 100 (ex_image 8 8) (ex_ctx True position_top_left 25)))
       = stderr_log (move_image str_to_num_dec True False None
           (fprintf_stderr (''Invalid move step: '' @ quoted_arg) [ArgStr ''abc'']
             (ex_world 100 100 (ex_image 8 8) (ex_ctx True position_top_left 25))))"
  using invalid_parameter_amended [of "''abc''" str_to_num_dec
      "ex_world 100 100 (ex_image 8 8) (ex_ctx True position_top_left 25)" True False]
  by (simp add: str_to_num_dec_examples scale_names_def ex_world_sel fprintf_stderr_sel)

subsection \<open>Navigation\<close>

lemma next_candidate_files:
  "next_candidate N action_next_file idx w =
     (case list_query (image_list_next_file N idx) w of (i, w1) \<Rightarrow> (i, action_next_file, w1))"
  "next_candidate N action_prev_file idx w =
     (case list_query (image_list_prev_file N idx) w of (i, w1) \<Rightarrow> (i, action_prev_file, w1))"
  "next_candidate N action_first_file idx w =
     (case list_query (image_list_first N) w of (i, w1) \<Rightarrow> (i, action_next_file, w1))"
  "next_candidate N action_last_file idx w =
     (case list_query (image_list_last N) w of (i, w1) \<Rightarrow> (i, action_prev_file, w1))"
  by (simp_all add: next_candidate_def)

lemma loop_next_file:
  "next_image_loop N n action_next_file idx w =
     navigate N (image_list_next_file N) (image_list_next_file N) n idx w"
proof (induction n arbitrary: idx w)
  case 0
  show ?case by simp
next
  case (Suc n)
  show ?case
    by (simp add: next_candidate_files Suc.IH split: prod.split option.split bool.split)
qed

lemma loop_prev_file:
  "next_image_loop N n action_prev_file idx w =
     navigate N (image_list_prev_file N) (image_list_prev_file N) n idx w"
proof (induction n arbitrary: idx w)
  case 0
  show ?case by simp
next
  case (Suc n)
  show ?case
    by (simp add: next_candidate_files Suc.IH split: prod.split option.split bool.split)
qed

lemma loop_first_file:
  "next_image_loop N n action_first_file idx w =
     navigate N (\<lambda>_. image_list_first N) (image_list_next_file N) n idx w"
  by (cases n)
     (simp_all add: next_candidate_files loop_next_file split: prod.split option.split bool.split)

lemma loop_last_file:
  "next_image_loop N n action_last_file idx w =
     navigate N (\<lambda>_. image_list_last N) (image_list_prev_file N) n idx w"
  by (cases n)
     (simp_all add: next_candidate_files loop_prev_file split: prod.split option.split bool.split)

lemma loop_skip:
  "(case list_query (image_list_skip N idx) w of (i, w1) \<Rightarrow> skip_image_loop N n i w1) =
     navigate N (image_list_skip N) (image_list_skip N) n idx w"
proof (induction n arbitrary: idx w)
  case 0
  show ?case by (simp split: prod.split)
next
  case (Suc n)
  show ?case
    by (auto simp add: Suc.IH [symmetric] split: prod.split option.split bool.split)
qed

lemma next_image_loaded:
  "next_image N n direction w =
     loaded (reset_state N) (next_image_loop N n direction (index (current w)) w)"
  by (simp add: next_image_def loaded_def)

lemma skip_image_loaded:
  "skip_image N n w =
     loaded id (case list_query (image_list_skip N (index (current w))) w of
                  (i, w1) \<Rightarrow> skip_image_loop N n i w1)"
  by (simp add: skip_image_def loaded_def split: prod.split option.split)

lemma navigate_result:
  "navigate N start cont n idx w = Some (r, w') \<Longrightarrow>
     (case r of
        None \<Rightarrow> \<exists>q j w1. q \<in> {start, cont} \<and> list_query (q j) w1 = (None, w')
      | Some i \<Rightarrow> \<exists>w1. open_image N i w1 = (True, w'))"
proof (induction n arbitrary: start idx w)
  case 0
  then show ?case by simp
next
  case (Suc n)
  obtain c w1 where q: "list_query (start idx) w = (c, w1)"
    by (cases "list_query (start idx) w")
  show ?case
  proof (cases c)
    case None
    then have "r = None" "w' = w1"
      using Suc.prems q by simp_all
    then show ?thesis
      using q None by auto
  next
    case (Some i)
    obtain b w2 where o: "open_image N i w1 = (b, w2)"
      by (cases "open_image N i w1")
    show ?thesis
    proof (cases b)
      case True
      then have "r = Some i" "w' = w2"
        using Suc.prems q Some o by simp_all
      then show ?thesis
        using o True by auto
    next
      case False
      then have "navigate N cont cont n i w2 = Some (r, w')"
        using Suc.prems q Some o by simp
      from Suc.IH [OF this] show ?thesis
        by (cases r) auto
    qed
  qed
qed

lemma ex_nav_sel:
  "image_list_next_file ex_nav = (\<lambda>i l. (if i + 1 < length l then Some (i + 1) else None, l))"
  "fetcher_open ex_nav = (\<lambda>i l. (if i < length l \<and> l ! i
                                 then Some ((ex_image 8 8)\<lparr>index := i\<rparr>) else None, l))"
  by (simp_all add: ex_nav_def)

text \<open>
  Claim C5. The loop of \<open>next_image\<close> is the retry policy with a continuation fixed by the
  direction family: first-file starts at the first file and retries with next-file,
  next-file retries with next-file, last-file starts at the last file and retries with
  previous-file, previous-file retries with previous-file. The loop of \<open>skip_image\<close> is the
  retry policy with the skip query of the list at every step, whatever direction led to the
  current image. In each case the attempts go on until an image opens or a query returns
  the exhaustion sentinel.
\<close>

theorem navigation_retry_policy:
  "next_image N n action_first_file w =
     loaded (reset_state N)
       (navigate N (\<lambda>_. image_list_first N) (image_list_next_file N) n (index (current w)) w)
   \<and> next_image N n action_next_file w =
     loaded (reset_state N)
       (navigate N (image_list_next_file N) (image_list_next_file N) n (index (current w)) w)
   \<and> next_image N n action_last_file w =
     loaded (reset_state N)
       (navigate N (\<lambda>_. image_list_last N) (image_list_prev_file N) n (index (current w)) w)
   \<and> next_image N n action_prev_file w =
     loaded (reset_state N)
       (navigate N (image_list_prev_file N) (image_list_prev_file N) n (index (current w)) w)
   \<and> skip_image N n w =
     loaded id
       (navigate N (image_list_skip N) (image_list_skip N) n (index (current w)) w)"
  by (simp only: next_image_loaded skip_image_loaded loop_first_file loop_next_file
      loop_last_file loop_prev_file loop_skip simp_thms)

theorem navigation_retry_policy_witness:
  "next_image ex_nav 2 action_next_file
     (ex_world_of [True, False] 100 100 (ex_image 8 8) (ex_ctx True position_center 1))
     = Some (False, ex_world_of [True, False] 100 100 (ex_image 8 8) (ex_ctx True position_center 1))"
  using navigation_retry_policy [of ex_nav 2
      "ex_world_of [True, False] 100 100 (ex_image 8 8) (ex_ctx True position_center 1)"]
  by (simp add: eval_nat_numeral list_query_def open_image_def ex_nav_sel loaded_def
      ex_world_of_def ex_image_def)

end
